theory Spec2Isabelle
  imports Main
begin

section \<open>JavaScript values, strings and errors\<close>

text \<open>
  The request body is parsed JSON, so each of the fields \<open>code\<close>, \<open>language\<close> and
  \<open>input\<close> is a JavaScript value of any type. The model covers an absent field
  (\<open>JUndefined\<close>), \<open>null\<close>, booleans, numbers, strings and arrays of strings. A number is
  kept as an integer: the handler only ever tests a number for being zero. A string is a
  list of characters with codes below 256 (the Latin-1 part of JavaScript's code units).
  Nested arrays and JSON objects are outside the model.
\<close>

datatype jsval =
    JUndefined
  | JNull
  | JBool bool
  | JNum int
  | JStr string
  | JArr "string list"

text \<open>JavaScript's truthiness, as used by \<open>!x\<close>, \<open>x && y\<close> and \<open>if (x)\<close>.\<close>

fun truthy :: "jsval \<Rightarrow> bool" where
  "truthy JUndefined = False"
| "truthy JNull = False"
| "truthy (JBool b) = b"
| "truthy (JNum n) = (n \<noteq> 0)"
| "truthy (JStr s) = (s \<noteq> [])"
| "truthy (JArr xs) = True"

text \<open>
  The property \<open>x.length\<close>: the number of characters of a string, the number of entries
  of an array, and \<open>undefined\<close> (\<open>None\<close>) on a boolean or a number. The handler reads it
  only from truthy values, so the \<open>TypeError\<close> of \<open>undefined.length\<close> and \<open>null.length\<close>
  is never reached; the model gives \<open>None\<close> there.
\<close>

fun js_length :: "jsval \<Rightarrow> nat option" where
  "js_length (JStr s) = Some (length s)"
| "js_length (JArr xs) = Some (length xs)"
| "js_length v = None"

text \<open>\<open>x > n\<close> for a property value \<open>x\<close>: \<open>undefined > n\<close> is false.\<close>

fun js_gt :: "nat option \<Rightarrow> nat \<Rightarrow> bool" where
  "js_gt None n = False"
| "js_gt (Some k) n = (k > n)"

datatype js_error = TypeError string | Error string

fun err_message :: "js_error \<Rightarrow> string" where
  "err_message (TypeError m) = m"
| "err_message (Error m) = m"

text \<open>\<open>String.prototype.toLowerCase\<close> on characters below 256.\<close>

definition toLowerCase_char :: "char \<Rightarrow> char" where
  "toLowerCase_char c =
     (let n = (of_char c :: nat)
      in if (65 \<le> n \<and> n \<le> 90) \<or> (192 \<le> n \<and> n \<le> 222 \<and> n \<noteq> 215)
         then char_of (n + 32) else c)"

definition toLowerCase :: "string \<Rightarrow> string" where
  "toLowerCase s = map toLowerCase_char s"

text \<open>
  The white space of \<open>\s\<close> in a regular expression and of \<open>trim\<close>, below 256:
  tab, line feed, vertical tab, form feed, carriage return, space, no-break space.
\<close>

definition is_space :: "char \<Rightarrow> bool" where
  "is_space c = ((of_char c :: nat) \<in> {9, 10, 11, 12, 13, 32, 160})"

text \<open>The character classes \<open>[a-zA-Z_$]\<close> and \<open>[a-zA-Z\d_$]\<close>.\<close>

definition is_ident_start :: "char \<Rightarrow> bool" where
  "is_ident_start c =
     (let n = (of_char c :: nat)
      in (97 \<le> n \<and> n \<le> 122) \<or> (65 \<le> n \<and> n \<le> 90) \<or> n = 95 \<or> n = 36)"

definition is_ident_char :: "char \<Rightarrow> bool" where
  "is_ident_char c =
     (let n = (of_char c :: nat)
      in (97 \<le> n \<and> n \<le> 122) \<or> (65 \<le> n \<and> n \<le> 90) \<or> (48 \<le> n \<and> n \<le> 57)
         \<or> n = 95 \<or> n = 36)"

definition trim :: "string \<Rightarrow> string" where
  "trim s = rev (dropWhile is_space (rev (dropWhile is_space s)))"

text \<open>\<open>s.includes(sub)\<close>: \<open>sub\<close> occurs in \<open>s\<close> as a contiguous substring.\<close>

fun str_includes :: "string \<Rightarrow> string \<Rightarrow> bool" where
  "str_includes [] sub = (sub = [])"
| "str_includes (c # cs) sub = (take (length sub) (c # cs) = sub \<or> str_includes cs sub)"

text \<open>\<open>Array.prototype.join\<close> on an array of strings.\<close>

fun join :: "string \<Rightarrow> string list \<Rightarrow> string" where
  "join sep [] = []"
| "join sep [x] = x"
| "join sep (x # y # ys) = x @ sep @ join sep (y # ys)"

text \<open>
  \<open>path.join(dir, name)\<close> for a normalized directory path and a name without separators,
  on a POSIX system, which is all the handler passes it.
\<close>

definition path_join :: "string \<Rightarrow> string \<Rightarrow> string" where
  "path_join dir name = dir @ ''/'' @ name"

text \<open>
  \<open>path.basename(name, ext)\<close> for a name without separators: the name without the
  suffix \<open>ext\<close>, when it ends with it.
\<close>

definition basename :: "string \<Rightarrow> string \<Rightarrow> string" where
  "basename name ext =
     (if ext \<noteq> [] \<and> length ext \<le> length name
         \<and> drop (length name - length ext) name = ext
      then take (length name - length ext) name else name)"

section \<open>The request handler of \<open>POST /run-program\<close>\<close>

record request =
  code :: jsval
  language :: jsval
  input :: jsval

record envelope =
  responseCode :: nat
  output' :: string
  errorMessage :: string

text \<open>The \<open>error\<close> argument of the callback of \<open>child_process.exec\<close>.\<close>

record exec_error =
  killed :: bool
  message :: string

text \<open>
  What \<open>exec(command, ...)\<close> does: it throws at once, or it later calls the callback
  with \<open>(error, stdout, stderr)\<close>, \<open>error\<close> being \<open>null\<close> on success.
\<close>

datatype exec_outcome =
    ExecThrows js_error
  | ExecCallback "exec_error option" string string

text \<open>
  Everything the handler does not decide itself: the workspace path
  \<open>path.join(__dirname, "temp", uuidv4())\<close>, whether \<open>fs.mkdir\<close> and \<open>fs.writeFile\<close>
  throw (\<open>Some\<close> error) or succeed (\<open>None\<close>), and the outcome of \<open>exec\<close>.
\<close>

record world =
  tempDir :: string
  mkdir_result :: "js_error option"
  writeFile_result :: "string \<Rightarrow> jsval \<Rightarrow> js_error option"
  exec_result :: "string \<Rightarrow> exec_outcome"

text \<open>
  The handler's observable actions, in the order it performs them. \<open>Respond st env\<close> is
  \<open>res.status(st).json(env)\<close>. Logging is left out.
\<close>

datatype effect =
    Mkdir string
  | Rm string
  | WriteFile string jsval
  | Exec string
  | Respond nat envelope

text \<open>
  How the asynchronous handler ends: it returns, or its promise is rejected with an
  exception that no \<open>catch\<close> of the handler caught.
\<close>

datatype completion = Returned | Rejected js_error

text \<open>\<open>cleanup\<close> (lines 66-73): one \<open>fs.rm\<close>; its failure is caught and only logged.\<close>

definition cleanup :: "string \<Rightarrow> effect list" where
  "cleanup dir = [Rm dir]"

text \<open>
  \<open>prepareInputFile\<close> (lines 76-84): the actions and the thrown error or the returned path.
\<close>

definition prepareInputFile :: "world \<Rightarrow> string \<Rightarrow> jsval \<Rightarrow> effect list \<times> (js_error + string)" where
  "prepareInputFile w dir inputArray =
     (case inputArray of
        JArr xs \<Rightarrow>
          (let inputFilePath = path_join dir ''input.txt'';
               inputContent = join [CHR 0x0A] xs
           in ([WriteFile inputFilePath (JStr inputContent)],
               case writeFile_result w inputFilePath (JStr inputContent) of
                 Some e \<Rightarrow> Inl e
               | None \<Rightarrow> Inr inputFilePath))
      | _ \<Rightarrow> ([], Inl (Error ''Input should be an array of strings.'')))"

text \<open>
  The table \<open>fileExtensions\<close> (lines 113-120) read with \<open>fileExtensions[key]\<close>. The
  table is an object literal, so a key it does not hold is looked up in
  \<open>Object.prototype\<close>; of the names found there only \<open>constructor\<close> and \<open>__proto__\<close>
  are their own lower case, and both values are truthy.
\<close>

datatype extension = Ext string | ObjectConstructor | ObjectPrototype

definition fileExtensions :: "string \<Rightarrow> extension option" where
  "fileExtensions key =
     (if key = ''java'' then Some (Ext ''java'')
      else if key = ''python'' then Some (Ext ''py'')
      else if key = ''javascript'' then Some (Ext ''js'')
      else if key = ''c'' then Some (Ext ''c'')
      else if key = ''cpp'' then Some (Ext ''cpp'')
      else if key = ''csharp'' then Some (Ext ''cs'')
      else if key = ''constructor'' then Some ObjectConstructor
      else if key = ''__proto__'' then Some ObjectPrototype
      else None)"

text \<open>The extension inside the template literal of line 132.\<close>

fun extension_string :: "extension \<Rightarrow> string" where
  "extension_string (Ext s) = s"
| "extension_string ObjectConstructor = ''function Object() { [native code] }''"
| "extension_string ObjectPrototype = ''[object Object]''"

text \<open>
  The regular expression of line 136, \<open>/class\s+([a-zA-Z_$][a-zA-Z\d_$]*)/\<close>, tried at
  the start of \<open>s\<close>: the letters \<open>class\<close>, one or more white space characters, a
  character that may start an identifier, and as many identifier characters as follow.
  No white space character may start an identifier, so a match exists exactly when an
  identifier start follows the whole run of white space. The result is group 1.
\<close>

definition match_here :: "string \<Rightarrow> string option" where
  "match_here s =
     (if take 5 s = ''class'' then
        (case drop 5 s of
           [] \<Rightarrow> None
         | x # xs \<Rightarrow>
             if is_space x then
               (case dropWhile is_space xs of
                  [] \<Rightarrow> None
                | y # ys \<Rightarrow>
                    if is_ident_start y then Some (y # takeWhile is_ident_char ys) else None)
             else None)
      else None)"

text \<open>
  \<open>code.match(...)\<close> without the \<open>g\<close> flag: the match at the leftmost position that
  has one; \<open>None\<close> is \<open>null\<close>.
\<close>

fun classNameMatch :: "string \<Rightarrow> string option" where
  "classNameMatch [] = None"
| "classNameMatch (c # cs) =
     (case match_here (c # cs) of
        Some g \<Rightarrow> Some g
      | None \<Rightarrow> classNameMatch cs)"

text \<open>
  The \<open>switch\<close> of lines 158-199. \<open>None\<close> is \<open>executionCommand\<close> left \<open>undefined\<close>
  when no \<open>case\<close> applies.
\<close>

definition executionCommand ::
  "string \<Rightarrow> string \<Rightarrow> string \<Rightarrow> string \<Rightarrow> string option \<Rightarrow> string option" where
  "executionCommand lang dir fileName filePath inputFilePath =
     (let redirect = (case inputFilePath of None \<Rightarrow> [] | Some p \<Rightarrow> '' < '' @ p)
      in if lang = ''java'' then
           Some (''javac '' @ filePath @ '' && java -cp '' @ dir @ '' ''
                 @ basename fileName ''.java'' @ redirect)
         else if lang = ''python'' then Some (''python3 '' @ filePath @ redirect)
         else if lang = ''javascript'' then Some (''node '' @ filePath @ redirect)
         else if lang = ''c'' then
           (let cOutputFile = path_join dir ''program''
            in Some (''gcc '' @ filePath @ '' -o '' @ cOutputFile @ '' && '' @ cOutputFile
                     @ redirect))
         else if lang = ''cpp'' then
           (let cppOutputFile = path_join dir ''program''
            in Some (''g++ '' @ filePath @ '' -o '' @ cppOutputFile @ '' && '' @ cppOutputFile
                     @ redirect))
         else if lang = ''csharp'' then
           (let csharpOutputFile = path_join dir ''Program.exe''
            in Some (''mcs '' @ filePath @ '' -out:'' @ csharpOutputFile @ '' && mono ''
                     @ csharpOutputFile @ redirect))
         else None)"

text \<open>The callback given to \<open>exec\<close> (lines 201-238).\<close>

definition exec_callback :: "string \<Rightarrow> exec_error option \<Rightarrow> string \<Rightarrow> string \<Rightarrow> effect list" where
  "exec_callback dir error stdout stderr =
     cleanup dir @
     (case error of
        Some e \<Rightarrow>
          if killed e then
            [Respond 500 \<lparr>responseCode = 202,
                          output' = ''Execution timed out after 30 seconds.'',
                          errorMessage = ''''\<rparr>]
          else
            (let isCompilationError = str_includes stderr ''error''
             in [Respond 500 \<lparr>responseCode = 202,
                               output' = (if trim stderr \<noteq> [] then trim stderr else message e),
                               errorMessage = (if isCompilationError
                                               then ''Compilation error occurred.''
                                               else ''Runtime error occurred.'')\<rparr>])
      | None \<Rightarrow>
          [Respond 200 \<lparr>responseCode = 201, output' = trim stdout, errorMessage = ''''\<rparr>])"

text \<open>
  \<open>exec(undefined, ...)\<close> throws this \<open>TypeError\<close> when it validates its argument.
\<close>

definition exec_undefined_error :: js_error where
  "exec_undefined_error =
     TypeError (''The '' @ [CHR 0x22] @ ''command'' @ [CHR 0x22]
                @ '' argument must be of type string. Received undefined'')"

text \<open>
  Lines 153-156: \<open>inputFilePath\<close> stays \<open>null\<close> (\<open>None\<close>) unless \<open>input\<close> is truthy,
  and then it is what \<open>prepareInputFile\<close> returns, unless that throws.
\<close>

definition prepare_input :: "world \<Rightarrow> request \<Rightarrow> effect list \<times> (js_error + string option)" where
  "prepare_input w req =
     (if truthy (input req) then
        (case prepareInputFile w (tempDir w) (input req) of
           (actions, Inl e) \<Rightarrow> (actions, Inl e)
         | (actions, Inr p) \<Rightarrow> (actions, Inr (Some p)))
      else ([], Inr None))"

text \<open>
  The call of \<open>exec\<close> (line 201) with its callback: the actions, and the exception the
  call throws, if any. When it does not throw, the callback's actions follow.
\<close>

definition run_exec :: "world \<Rightarrow> string option \<Rightarrow> effect list \<times> js_error option" where
  "run_exec w command =
     (case command of
        None \<Rightarrow> ([], Some exec_undefined_error)
      | Some c \<Rightarrow>
          (case exec_result w c of
             ExecThrows e \<Rightarrow> ([Exec c], Some e)
           | ExecCallback error stdout stderr \<Rightarrow>
               (Exec c # exec_callback (tempDir w) error stdout stderr, None)))"

text \<open>
  The body of the \<open>try\<close> block (lines 151-238): its actions, and the exception that
  leaves it, if any.
\<close>

definition try_body ::
  "world \<Rightarrow> request \<Rightarrow> string \<Rightarrow> string \<Rightarrow> effect list \<times> js_error option" where
  "try_body w req lang fileName =
     (let dir = tempDir w;
          filePath = path_join dir fileName
      in case writeFile_result w filePath (code req) of
           Some e \<Rightarrow> ([WriteFile filePath (code req)], Some e)
         | None \<Rightarrow>
             (case prepare_input w req of
                (inputActions, Inl e) \<Rightarrow> (WriteFile filePath (code req) # inputActions, Some e)
              | (inputActions, Inr inputFilePath) \<Rightarrow>
                  (case run_exec w (executionCommand lang dir fileName filePath inputFilePath) of
                     (execActions, thrown) \<Rightarrow>
                       (WriteFile filePath (code req) # inputActions @ execActions, thrown))))"

text \<open>The \<open>try\<close> statement with its \<open>catch\<close> block (lines 150-250).\<close>

definition try_catch :: "world \<Rightarrow> request \<Rightarrow> string \<Rightarrow> string \<Rightarrow> effect list" where
  "try_catch w req lang fileName =
     (case try_body w req lang fileName of
        (actions, None) \<Rightarrow> actions
      | (actions, Some err) \<Rightarrow>
          actions @ cleanup (tempDir w)
          @ [Respond 500 \<lparr>responseCode = 202, output' = err_message err,
                           errorMessage = ''Internal server error occurred.''\<rparr>])"

text \<open>
  \<open>language.toLowerCase()\<close>: defined on a string; on any other truthy value the call
  throws, since the method does not exist there.
\<close>

fun language_toLowerCase :: "jsval \<Rightarrow> js_error + string" where
  "language_toLowerCase (JStr s) = Inr (toLowerCase s)"
| "language_toLowerCase v = Inl (TypeError ''language.toLowerCase is not a function'')"

text \<open>\<open>code.match(...)\<close> of line 136, group 1 of the match.\<close>

fun code_match :: "jsval \<Rightarrow> js_error + string option" where
  "code_match (JStr s) = Inr (classNameMatch s)"
| "code_match v = Inl (TypeError ''code.match is not a function'')"

text \<open>
  The handler up to the \<open>try\<close> statement (lines 92-148). \<open>Inl\<close>: the handler ended
  there, with these actions. \<open>Inr (lang, fileName)\<close>: the workspace was created and the
  handler goes on to the \<open>try\<close> statement with this language key and source file name.
\<close>

definition before_try ::
  "world \<Rightarrow> request \<Rightarrow> (effect list \<times> completion) + (string \<times> string)" where
  "before_try w req =
     (if \<not> truthy (code req) \<or> \<not> truthy (language req) then
        Inl ([Respond 400 \<lparr>responseCode = 203,
                            output' = ''Code and language are required.'',
                            errorMessage = ''Code and language are required.''\<rparr>], Returned)
      else if js_gt (js_length (code req)) 5000
              \<or> (truthy (input req) \<and> js_gt (js_length (input req)) 1000) then
        Inl ([Respond 400 \<lparr>responseCode = 203,
                            output' = ''Code or input is too large. Please limit their sizes.'',
                            errorMessage = ''''\<rparr>], Returned)
      else
        (let dir = tempDir w
         in case mkdir_result w of
              Some e \<Rightarrow> Inl ([Mkdir dir], Rejected e)
            | None \<Rightarrow>
                (case language_toLowerCase (language req) of
                   Inl e \<Rightarrow> Inl ([Mkdir dir], Rejected e)
                 | Inr lang \<Rightarrow>
                     (case fileExtensions lang of
                        None \<Rightarrow>
                          Inl (Mkdir dir # cleanup dir
                               @ [Respond 400 \<lparr>responseCode = 203,
                                                output' = ''Unsupported language.'',
                                                errorMessage = ''Unsupported language.''\<rparr>],
                               Returned)
                      | Some fileExtension \<Rightarrow>
                          if lang = ''java'' then
                            (case code_match (code req) of
                               Inl e \<Rightarrow> Inl ([Mkdir dir], Rejected e)
                             | Inr None \<Rightarrow>
                                 Inl (Mkdir dir # cleanup dir
                                      @ [Respond 400 \<lparr>responseCode = 400,
                                           output' = ''Invalid Java code. Class name is missing.'',
                                           errorMessage = ''''\<rparr>],
                                      Returned)
                             | Inr (Some className) \<Rightarrow> Inr (lang, className @ ''.java''))
                          else Inr (lang, ''Program.'' @ extension_string fileExtension)))))"

text \<open>The handler (lines 87-251): its actions in order, and how it ends.\<close>

definition run_program :: "world \<Rightarrow> request \<Rightarrow> effect list \<times> completion" where
  "run_program w req =
     (case before_try w req of
        Inl ended \<Rightarrow> ended
      | Inr (lang, fileName) \<Rightarrow>
          (Mkdir (tempDir w) # try_catch w req lang fileName, Returned))"

text \<open>What is read off a run: the responses sent and the removals of a directory.\<close>

fun responses :: "effect list \<Rightarrow> (nat \<times> envelope) list" where
  "responses [] = []"
| "responses (Respond st env # es) = (st, env) # responses es"
| "responses (e # es) = responses es"

definition removals :: "string \<Rightarrow> effect list \<Rightarrow> nat" where
  "removals dir es = count_list es (Rm dir)"

definition spawned :: "effect list \<Rightarrow> bool" where
  "spawned es = (\<exists>command. Exec command \<in> set es)"

section \<open>The supervisor (lines 36-47)\<close>

text \<open>
  The master process: the workers alive, by the number of the \<open>cluster.fork()\<close> call
  that made each, and the number of calls made so far.
\<close>

record supervisor =
  workers :: "nat list"
  forked :: nat

definition cluster_fork :: "supervisor \<Rightarrow> supervisor" where
  "cluster_fork s = s\<lparr>workers := workers s @ [forked s], forked := Suc (forked s)\<rparr>"

text \<open>The loop \<open>for (let i = 0; i < numCPUs; i++) cluster.fork()\<close>.\<close>

function fork_loop :: "nat \<Rightarrow> nat \<Rightarrow> supervisor \<Rightarrow> supervisor" where
  "fork_loop i numCPUs s =
     (if i < numCPUs then fork_loop (Suc i) numCPUs (cluster_fork s) else s)"
  by pat_completeness auto
termination
  by (relation "measure (\<lambda>(i, numCPUs, s). numCPUs - i)") auto

declare fork_loop.simps [simp del]

definition master_start :: "nat \<Rightarrow> supervisor" where
  "master_start numCPUs = fork_loop 0 numCPUs \<lparr>workers = [], forked = 0\<rparr>"

text \<open>
  A worker that is alive exits, for whatever reason, and the \<open>exit\<close> listener runs:
  it calls \<open>cluster.fork()\<close> once, whatever the worker and however it ended.
\<close>

definition on_exit :: "nat \<Rightarrow> supervisor \<Rightarrow> supervisor" where
  "on_exit worker s = cluster_fork (s\<lparr>workers := removeAll worker (workers s)\<rparr>)"

text \<open>
  A sequence of worker exits, each of a worker alive at that moment; \<open>None\<close> when the
  sequence names a worker that is not alive, which cannot happen.
\<close>

fun run_exits :: "supervisor \<Rightarrow> nat list \<Rightarrow> supervisor option" where
  "run_exits s [] = Some s"
| "run_exits s (worker # rest) =
     (if worker \<in> set (workers s) then run_exits (on_exit worker s) rest else None)"

section \<open>Notions used in the statements\<close>

text \<open>An action that writes a file.\<close>

fun is_write :: "effect \<Rightarrow> bool" where
  "is_write (WriteFile p d) = True"
| "is_write e = False"

text \<open>
  The specification's reading of the Java rule, in its own words: an identifier is a
  character that may start one followed by identifier characters; the keyword
  \<open>class\<close> followed by an identifier occurs at position \<open>i\<close> of the code when the code
  continues there with \<open>class\<close>, some white space, the identifier, and then ends or
  goes on with a character that cannot continue the identifier; the first match is
  the one at the least position that has one.
\<close>

definition valid_identifier :: "string \<Rightarrow> bool" where
  "valid_identifier ident =
     (case ident of [] \<Rightarrow> False | y # ys \<Rightarrow> is_ident_start y \<and> list_all is_ident_char ys)"

definition class_match_at :: "string \<Rightarrow> nat \<Rightarrow> string \<Rightarrow> bool" where
  "class_match_at s i ident =
     (\<exists>ws rest. drop i s = ''class'' @ ws @ ident @ rest
        \<and> ws \<noteq> [] \<and> list_all is_space ws
        \<and> valid_identifier ident
        \<and> (case rest of [] \<Rightarrow> True | r # rs \<Rightarrow> \<not> is_ident_char r))"

definition first_class_match :: "string \<Rightarrow> string \<Rightarrow> bool" where
  "first_class_match s ident =
     (\<exists>i. class_match_at s i ident \<and> (\<forall>j<i. \<forall>other. \<not> class_match_at s j other))"


text \<open>
  The specification's trimmed string, in its own words: \<open>t\<close> is \<open>s\<close> without its
  leading and trailing white space.
\<close>

definition trimmed :: "string \<Rightarrow> string \<Rightarrow> bool" where
  "trimmed s t =
     (\<exists>pre post. s = pre @ t @ post
        \<and> list_all is_space pre \<and> list_all is_space post
        \<and> (case t of [] \<Rightarrow> True | x # xs \<Rightarrow> \<not> is_space x \<and> \<not> is_space (last t)))"

text \<open>
  The request passes the two checks made before the workspace is created (lines 94-108).
\<close>

definition admitted :: "request \<Rightarrow> bool" where
  "admitted req =
     (truthy (code req) \<and> truthy (language req)
      \<and> \<not> (js_gt (js_length (code req)) 5000
             \<or> (truthy (input req) \<and> js_gt (js_length (input req)) 1000)))"

text \<open>
  The pool of a supervisor for \<open>n\<close> cores: \<open>n\<close> different workers, each made by a
  call of \<open>cluster.fork()\<close> already counted.
\<close>

definition pool_ok :: "nat \<Rightarrow> supervisor \<Rightarrow> bool" where
  "pool_ok n s =
     (length (workers s) = n \<and> distinct (workers s) \<and> (\<forall>x\<in>set (workers s). x < forked s))"

section \<open>Concrete worlds and requests\<close>

text \<open>A world in which every file operation succeeds and the program prints \<open>ok\<close>.\<close>

definition world_ok :: world where
  "world_ok =
     \<lparr>tempDir = ''/app/temp/t1'', mkdir_result = None,
      writeFile_result = (\<lambda>p d. None),
      exec_result = (\<lambda>command. ExecCallback None ''ok'' [])\<rparr>"

text \<open>A world in which the child process is killed when the timeout expires.\<close>

definition world_timeout :: world where
  "world_timeout =
     world_ok\<lparr>exec_result :=
       (\<lambda>command. ExecCallback (Some \<lparr>killed = True, message = ''Command failed''\<rparr>) [] [])\<rparr>"

text \<open>A world in which the child process fails with a message on standard error.\<close>

definition world_fail :: "string \<Rightarrow> world" where
  "world_fail err =
     world_ok\<lparr>exec_result :=
       (\<lambda>command. ExecCallback (Some \<lparr>killed = False, message = ''Command failed''\<rparr>) [] err)\<rparr>"

definition python_request :: "jsval \<Rightarrow> request" where
  "python_request inp = \<lparr>code = JStr ''print(1)'', language = JStr ''Python'', input = inp\<rparr>"

definition java_request :: "string \<Rightarrow> request" where
  "java_request src = \<lparr>code = JStr src, language = JStr ''java'', input = JUndefined\<rparr>"

text \<open>The body \<open>{"code": "x", "language": 1}\<close>.\<close>

definition numeric_language_request :: request where
  "numeric_language_request = \<lparr>code = JStr ''x'', language = JNum 1, input = JUndefined\<rparr>"

text \<open>The body \<open>{"code": 5, "language": "java"}\<close>.\<close>

definition numeric_code_request :: request where
  "numeric_code_request = \<lparr>code = JNum 5, language = JStr ''java'', input = JUndefined\<rparr>"

lemmas handler_defs =
  run_program_def before_try_def try_catch_def try_body_def prepare_input_def
  prepareInputFile_def run_exec_def executionCommand_def exec_callback_def cleanup_def
  path_join_def basename_def fileExtensions_def exec_undefined_error_def admitted_def
  removals_def

lemmas world_defs =
  world_ok_def world_timeout_def world_fail_def python_request_def java_request_def
  numeric_language_request_def numeric_code_request_def

section \<open>The class-name pattern finds the first match\<close>

lemma ident_start_not_space: "is_ident_start y \<Longrightarrow> \<not> is_space y" 
  unfolding is_space_def is_ident_start_def by (auto simp: Let_def)

lemma dropWhile_stops: "(case dropWhile P ys of [] \<Rightarrow> True | r # rs \<Rightarrow> \<not> P r)"
  by (auto split: list.splits simp: dropWhile_eq_Cons_conv)

lemma match_here_complete:
  assumes m: "match_here s = Some ident"
  shows "class_match_at s 0 ident"
proof -
  from m have p: "take 5 s = ''class''" unfolding match_here_def by (simp split: if_splits)
  from m p obtain x xs where d: "drop 5 s = x # xs" and sx: "is_space x"
    unfolding match_here_def by (auto split: if_splits list.splits)
  from m p d sx have "\<exists>y ys. dropWhile is_space xs = y # ys \<and> is_ident_start y
      \<and> ident = y # takeWhile is_ident_char ys"
    unfolding match_here_def by (simp split: if_splits list.splits)
  then obtain y ys where dw: "dropWhile is_space xs = y # ys" and sy: "is_ident_start y"
     and id: "ident = y # takeWhile is_ident_char ys" by blast
  let ?ws = "x # takeWhile is_space xs"
  let ?rest = "dropWhile is_ident_char ys"
  have a: "s = ''class'' @ drop 5 s" using p append_take_drop_id[of 5 s] by metis
  have b: "xs = takeWhile is_space xs @ y # ys" using dw takeWhile_dropWhile_id[of is_space xs] by metis
  have c: "ys = takeWhile is_ident_char ys @ ?rest" by simp
  have "s = ''class'' @ ?ws @ ident @ ?rest"
    using a d b c id by (metis append_Cons append_assoc)
  then have s: "drop 0 s = ''class'' @ ?ws @ ident @ ?rest" by (metis drop0)
  have ws: "list_all is_space ?ws" using sx by (auto simp: list_all_iff dest: set_takeWhileD)
  have vi: "valid_identifier ident" using id sy
    by (auto simp: valid_identifier_def list_all_iff dest: set_takeWhileD)
  show "class_match_at s 0 ident"
    unfolding class_match_at_def
    apply (rule exI[of _ ?ws], rule exI[of _ ?rest])
    using s ws vi dropWhile_stops[of is_ident_char ys] by blast
qed

lemma match_here_sound:
  assumes "class_match_at s 0 ident"
  shows "match_here s = Some ident"
proof -
  from assms obtain ws rest where s: "s = ''class'' @ ws @ ident @ rest" and ne: "ws \<noteq> []"
    and ws: "list_all is_space ws" and vi: "valid_identifier ident"
    and rest: "(case rest of [] \<Rightarrow> True | r # rs \<Rightarrow> \<not> is_ident_char r)"
    unfolding class_match_at_def by auto
  obtain x xs where wsx: "ws = x # xs" using ne by (cases ws) auto
  obtain y ys where idy: "ident = y # ys" and sy: "is_ident_start y" and ys: "list_all is_ident_char ys"
    using vi unfolding valid_identifier_def by (auto split: list.splits)
  have nsy: "\<not> is_space y" using sy by (rule ident_start_not_space)
  have sx: "is_space x" and sxs: "\<forall>z\<in>set xs. is_space z" using ws wsx by (simp_all add: list_all_iff)
  have dw: "dropWhile is_space (xs @ y # ys @ rest) = y # ys @ rest"
    using sxs nsy by (simp add: dropWhile_append3)
  have tw: "takeWhile is_ident_char (ys @ rest) = ys"
    using ys rest by (cases rest) (auto simp: list_all_iff takeWhile_tail)
  have t: "take 5 s = ''class''" and d: "drop 5 s = x # (xs @ y # ys @ rest)"
    unfolding s wsx idy by simp_all
  show "match_here s = Some ident"
    unfolding match_here_def t d using sx sy dw tw idy by simp
qed

lemma class_match_at_drop: "class_match_at s i ident \<longleftrightarrow> class_match_at (drop i s) 0 ident"
  unfolding class_match_at_def by simp

lemma class_match_at_iff: "class_match_at s i ident \<longleftrightarrow> match_here (drop i s) = Some ident"
  using class_match_at_drop[of s i ident] match_here_complete[of "drop i s" ident]
    match_here_sound[of "drop i s" ident] by blast

lemma match_here_Nil: "match_here [] = None"
  unfolding match_here_def by simp

lemma classNameMatch_scan:
  "classNameMatch s = Some ident \<longleftrightarrow>
     (\<exists>i. match_here (drop i s) = Some ident \<and> (\<forall>j<i. match_here (drop j s) = None))"
proof (induction s)
  case Nil
  then show ?case by (simp add: match_here_Nil)
next
  case (Cons c cs)
  show ?case
  proof (cases "match_here (c # cs)")
    case (Some g)
    have "(\<exists>i. match_here (drop i (c # cs)) = Some ident \<and> (\<forall>j<i. match_here (drop j (c # cs)) = None))
          \<longleftrightarrow> g = ident"
    proof
      assume "\<exists>i. match_here (drop i (c # cs)) = Some ident \<and> (\<forall>j<i. match_here (drop j (c # cs)) = None)"
      then obtain i where i: "match_here (drop i (c # cs)) = Some ident"
        and least: "\<forall>j<i. match_here (drop j (c # cs)) = None" by blast
      have "i = 0"
      proof (rule ccontr)
        assume "i \<noteq> 0"
        then have "match_here (drop 0 (c # cs)) = None" using least by blast
        then show False using Some by simp
      qed
      then show "g = ident" using i Some by simp
    next
      assume "g = ident"
      then have "match_here (drop 0 (c # cs)) = Some ident \<and> (\<forall>j<0. match_here (drop j (c # cs)) = None)"
        using Some by simp
      then show "\<exists>i. match_here (drop i (c # cs)) = Some ident \<and> (\<forall>j<i. match_here (drop j (c # cs)) = None)"
        by blast
    qed
    then show ?thesis using Some by simp
  next
    case None
    have "(\<exists>i. match_here (drop i (c # cs)) = Some ident \<and> (\<forall>j<i. match_here (drop j (c # cs)) = None))
          \<longleftrightarrow> (\<exists>i. match_here (drop i cs) = Some ident \<and> (\<forall>j<i. match_here (drop j cs) = None))"
    proof
      assume "\<exists>i. match_here (drop i (c # cs)) = Some ident \<and> (\<forall>j<i. match_here (drop j (c # cs)) = None)"
      then obtain i where i: "match_here (drop i (c # cs)) = Some ident"
        and least: "\<forall>j<i. match_here (drop j (c # cs)) = None" by blast
      from i None obtain k where k: "i = Suc k" by (cases i) auto
      have "match_here (drop k cs) = Some ident" using i k by simp
      moreover have "\<forall>j<k. match_here (drop j cs) = None"
      proof (intro allI impI)
        fix j assume "j < k"
        then have "Suc j < i" using k by simp
        then have "match_here (drop (Suc j) (c # cs)) = None" using least by blast
        then show "match_here (drop j cs) = None" by simp
      qed
      ultimately show "\<exists>i. match_here (drop i cs) = Some ident \<and> (\<forall>j<i. match_here (drop j cs) = None)"
        by blast
    next
      assume "\<exists>i. match_here (drop i cs) = Some ident \<and> (\<forall>j<i. match_here (drop j cs) = None)"
      then obtain i where i: "match_here (drop i cs) = Some ident"
        and least: "\<forall>j<i. match_here (drop j cs) = None" by blast
      have "match_here (drop (Suc i) (c # cs)) = Some ident" using i by simp
      moreover have "\<forall>j<Suc i. match_here (drop j (c # cs)) = None"
      proof (intro allI impI)
        fix j assume j: "j < Suc i"
        show "match_here (drop j (c # cs)) = None"
        proof (cases j)
          case 0
          then show ?thesis using None by simp
        next
          case (Suc m)
          then show ?thesis using j least by simp
        qed
      qed
      ultimately show "\<exists>i. match_here (drop i (c # cs)) = Some ident \<and> (\<forall>j<i. match_here (drop j (c # cs)) = None)"
        by blast
    qed
    then show ?thesis using None Cons.IH by simp
  qed
qed

lemma classNameMatch_first: "classNameMatch s = Some ident \<longleftrightarrow> first_class_match s ident"
proof -
  have "\<And>j. (\<forall>other. \<not> class_match_at s j other) \<longleftrightarrow> match_here (drop j s) = None"
    by (simp add: class_match_at_iff)
  then show ?thesis
    unfolding first_class_match_def classNameMatch_scan by (simp add: class_match_at_iff)
qed

lemma classNameMatch_none: "classNameMatch s = None \<longleftrightarrow> (\<forall>i ident. \<not> class_match_at s i ident)"
proof
  assume n: "classNameMatch s = None"
  show "\<forall>i ident. \<not> class_match_at s i ident"
  proof (intro allI notI)
    fix i ident assume "class_match_at s i ident"
    then have "\<exists>i. \<exists>ident. match_here (drop i s) = Some ident" by (auto simp: class_match_at_iff)
    then obtain k where k: "\<exists>ident. match_here (drop k s) = Some ident"
      and least: "\<forall>j<k. \<not> (\<exists>ident. match_here (drop j s) = Some ident)"
      using exists_least_iff[of "\<lambda>i. \<exists>ident. match_here (drop i s) = Some ident"] by blast
    then obtain g where "match_here (drop k s) = Some g" by blast
    moreover have "\<forall>j<k. match_here (drop j s) = None" using least by auto
    ultimately have "classNameMatch s = Some g" unfolding classNameMatch_scan by blast
    then show False using n by simp
  qed
next
  assume a: "\<forall>i ident. \<not> class_match_at s i ident"
  show "classNameMatch s = None"
  proof (cases "classNameMatch s")
    case None then show ?thesis .
  next
    case (Some g)
    then have "first_class_match s g" by (simp add: classNameMatch_first)
    then show ?thesis using a unfolding first_class_match_def by blast
  qed
qed

section \<open>The shape of a run\<close>

lemma writes_no_response: "list_all is_write ws \<Longrightarrow> responses ws = []"
  by (induction ws rule: responses.induct) auto

lemma writes_no_removal: "list_all is_write ws \<Longrightarrow> removals d ws = 0"
  unfolding removals_def by (induction ws) auto

lemma writes_no_exec: "list_all is_write ws \<Longrightarrow> Exec k \<notin> set ws"
  by (induction ws) auto

lemma responses_append: "responses (xs @ ys) = responses xs @ responses ys"
  by (induction xs rule: responses.induct) auto

lemma prepareInputFile_writes: "prepareInputFile w d i = (acts, r) \<Longrightarrow> list_all is_write acts"
  unfolding prepareInputFile_def by (auto simp: Let_def split: jsval.splits)

lemma prepare_input_writes: "prepare_input w req = (acts, r) \<Longrightarrow> list_all is_write acts"
  unfolding prepare_input_def
  by (auto split: if_splits prod.splits sum.splits dest: prepareInputFile_writes)

lemma run_exec_cases:
  assumes "run_exec w command = (es, r)"
  shows "(es = [] \<and> r = Some exec_undefined_error \<and> command = None)
       \<or> (\<exists>k e. es = [Exec k] \<and> command = Some k \<and> exec_result w k = ExecThrows e \<and> r = Some e)
       \<or> (\<exists>k error out err. es = Exec k # exec_callback (tempDir w) error out err \<and> command = Some k
             \<and> exec_result w k = ExecCallback error out err \<and> r = None)"
  using assms unfolding run_exec_def
  by (auto split: option.splits exec_outcome.splits)

lemma try_body_cases:
  assumes "try_body w req lang fileName = (es, r)"
  shows "(\<exists>e. r = Some e \<and> list_all is_write es)
       \<or> (\<exists>ws k e. es = ws @ [Exec k] \<and> list_all is_write ws \<and> exec_result w k = ExecThrows e \<and> r = Some e)
       \<or> (\<exists>ws k error out err. es = ws @ Exec k # exec_callback (tempDir w) error out err
             \<and> list_all is_write ws \<and> exec_result w k = ExecCallback error out err \<and> r = None)"
proof (cases "writeFile_result w (path_join (tempDir w) fileName) (code req)")
  case (Some e)
  then show ?thesis using assms unfolding try_body_def by (auto simp: Let_def)
next
  case None
  obtain acts prep where prep: "prepare_input w req = (acts, prep)"
    by (cases "prepare_input w req") auto
  have w: "list_all is_write acts"
    using prep by (rule prepare_input_writes)
  show ?thesis
  proof (cases prep)
    case (Inl e)
    then show ?thesis using assms None prep w unfolding try_body_def by (auto simp: Let_def)
  next
    case (Inr ip)
    obtain xs thrown where ex: "run_exec w (executionCommand lang (tempDir w) fileName (path_join (tempDir w) fileName) ip) = (xs, thrown)"
      by (cases "run_exec w (executionCommand lang (tempDir w) fileName (path_join (tempDir w) fileName) ip)") auto
    have es: "es = (WriteFile (path_join (tempDir w) fileName) (code req) # acts) @ xs" and r: "r = thrown"
      using assms None prep Inr ex unfolding try_body_def by (auto simp: Let_def)
    have w': "list_all is_write (WriteFile (path_join (tempDir w) fileName) (code req) # acts)"
      using w by simp
    from run_exec_cases[OF ex] show ?thesis
    proof (elim disjE exE conjE)
      assume "xs = []" "thrown = Some exec_undefined_error"
      then show ?thesis using es r w' by simp
    next
      fix k e assume "xs = [Exec k]" "exec_result w k = ExecThrows e" "thrown = Some e"
      then show ?thesis using es r w' by blast
    next
      fix k error out err
      assume "xs = Exec k # exec_callback (tempDir w) error out err"
        "exec_result w k = ExecCallback error out err" "thrown = None"
      then show ?thesis using es r w' by blast
    qed
  qed
qed

text \<open>The callback removes the workspace once and then responds once.\<close>

lemma exec_callback_shape:
  "\<exists>st env. exec_callback d error out err = [Rm d, Respond st env]"
  unfolding exec_callback_def cleanup_def by (auto simp: Let_def split: option.splits)

lemma try_catch_cases:
  "(\<exists>ws e. try_catch w req lang fileName =
        ws @ [Rm (tempDir w), Respond 500 \<lparr>responseCode = 202, output' = err_message e,
                errorMessage = ''Internal server error occurred.''\<rparr>]
      \<and> list_all is_write ws)
   \<or> (\<exists>ws k e. try_catch w req lang fileName =
        ws @ [Exec k, Rm (tempDir w), Respond 500 \<lparr>responseCode = 202, output' = err_message e,
                errorMessage = ''Internal server error occurred.''\<rparr>]
      \<and> list_all is_write ws \<and> exec_result w k = ExecThrows e)
   \<or> (\<exists>ws k error out err. try_catch w req lang fileName =
        ws @ Exec k # exec_callback (tempDir w) error out err
      \<and> list_all is_write ws \<and> exec_result w k = ExecCallback error out err)"
proof -
  obtain es r where b: "try_body w req lang fileName = (es, r)"
    by (cases "try_body w req lang fileName") auto
  from try_body_cases[OF b] show ?thesis
  proof (elim disjE exE conjE)
    fix e assume "r = Some e" "list_all is_write es"
    then show ?thesis using b unfolding try_catch_def cleanup_def by auto
  next
    fix ws k e assume "es = ws @ [Exec k]" "list_all is_write ws" "exec_result w k = ExecThrows e" "r = Some e"
    then show ?thesis using b unfolding try_catch_def cleanup_def by auto
  next
    fix ws k error out err
    assume "es = ws @ Exec k # exec_callback (tempDir w) error out err" "list_all is_write ws"
      "exec_result w k = ExecCallback error out err" "r = None"
    then show ?thesis using b unfolding try_catch_def by auto
  qed
qed

lemma before_try_Inl_no_exec:
  "before_try w req = Inl (es, r) \<Longrightarrow> Exec k \<notin> set es"
  unfolding before_try_def cleanup_def
  by (auto simp: Let_def split: if_splits option.splits sum.splits)

lemma run_program_reached:
  "before_try w req = Inr (lang, fileName) \<Longrightarrow>
   run_program w req = (Mkdir (tempDir w) # try_catch w req lang fileName, Returned)"
  unfolding run_program_def by simp

lemma run_program_ended:
  "before_try w req = Inl ended \<Longrightarrow> run_program w req = ended"
  unfolding run_program_def by simp

section \<open>The pool invariant\<close>

lemma fork_loop_forks:
  "i \<le> n \<Longrightarrow> fork_loop i n s =
     s\<lparr>workers := workers s @ [forked s ..< forked s + (n - i)], forked := forked s + (n - i)\<rparr>"
proof (induction i n s rule: fork_loop.induct)
  case (1 i n s)
  show ?case
  proof (cases "i < n")
    case True
    then have "Suc i \<le> n" by simp
    from 1(1)[OF True this] True show ?thesis
      by (subst fork_loop.simps) (simp add: cluster_fork_def upt_conv_Cons Suc_diff_Suc)
  next
    case False
    then show ?thesis using 1(2) by (subst fork_loop.simps) simp
  qed
qed

lemma master_start_pool:
  "master_start n = \<lparr>workers = [0..<n], forked = n\<rparr>"
  unfolding master_start_def by (simp add: fork_loop_forks)

lemma on_exit_pool:
  assumes "pool_ok n s" "worker \<in> set (workers s)"
  shows "pool_ok n (on_exit worker s)" "forked (on_exit worker s) = Suc (forked s)"
proof -
  have d: "distinct (workers s)" and l: "length (workers s) = n"
    and b: "\<forall>x\<in>set (workers s). x < forked s"
    using assms(1) unfolding pool_ok_def by auto
  have "length (removeAll worker (workers s)) = n - 1"
    using d l assms(2) distinct_remove1_removeAll[of "workers s" worker] length_remove1[of worker "workers s"]
    by simp
  moreover have "0 < n" using l assms(2) by (cases "workers s") auto
  moreover have "forked s \<notin> set (removeAll worker (workers s))" using b by auto
  ultimately show "pool_ok n (on_exit worker s)"
    using d b unfolding pool_ok_def on_exit_def cluster_fork_def
    by (auto simp: less_Suc_eq distinct_removeAll)
  show "forked (on_exit worker s) = Suc (forked s)"
    unfolding on_exit_def cluster_fork_def by simp
qed

lemma run_exits_pool:
  "pool_ok n s \<Longrightarrow> run_exits s exits = Some s' \<Longrightarrow>
   pool_ok n s' \<and> forked s' = forked s + length exits"
proof (induction exits arbitrary: s)
  case Nil
  then show ?case by simp
next
  case (Cons worker rest)
  from Cons.prems(2) have alive: "worker \<in> set (workers s)"
    and rest: "run_exits (on_exit worker s) rest = Some s'"
    by (auto split: if_splits)
  from on_exit_pool[OF Cons.prems(1) alive] Cons.IH[OF _ rest] show ?case by simp
qed

lemma master_start_ok: "pool_ok n (master_start n)"
  unfolding pool_ok_def master_start_pool by simp

section \<open>Workspace removal (claim C1)\<close>

text \<open>
  Claim C1: for every request for which the workspace directory is created, its removal
  is attempted exactly once before the response is delivered, on every path. The handler
  misses a path. For the body \<open>{"code": "x", "language": 1}\<close> both checks of lines
  94-108 pass, the directory is created, and \<open>language.toLowerCase()\<close> on line 122,
  outside the \<open>try\<close> statement, throws: the handler's promise is rejected, \<open>cleanup\<close>
  is never called and no response is sent by the handler.
\<close>

theorem C1_workspace_left_behind:
  "run_program world_ok numeric_language_request
     = ([Mkdir (tempDir world_ok)],
        Rejected (TypeError ''language.toLowerCase is not a function''))
   \<and> removals (tempDir world_ok) (fst (run_program world_ok numeric_language_request)) = 0"
  by (simp add: handler_defs world_defs)

lemma before_try_typed:
  assumes "code req = JStr c" "language req = JStr l" "mkdir_result w = None"
    and "before_try w req = Inl (es, r)"
  shows "r = Returned \<and> ((\<exists>st env. es = [Respond st env])
           \<or> (\<exists>st env. es = [Mkdir (tempDir w), Rm (tempDir w), Respond st env]))"
  using assms unfolding before_try_def cleanup_def
  by (auto simp: Let_def split: if_splits option.splits sum.splits)

text \<open>
  When \<open>code\<close> and \<open>language\<close> are strings and the directory was created, the
  handler returns after exactly one response, which is its last action, and exactly
  one removal of the workspace comes before it.
\<close>

theorem cleanup_once_before_response:
  assumes "code req = JStr c" "language req = JStr l" "mkdir_result w = None"
    and "Mkdir (tempDir w) \<in> set (fst (run_program w req))"
  shows "\<exists>pre st env. run_program w req = (pre @ [Respond st env], Returned)
           \<and> removals (tempDir w) pre = 1 \<and> responses pre = []"
proof (cases "before_try w req")
  case (Inl ended)
  obtain es r where e: "ended = (es, r)" by (cases ended) auto
  have rp: "run_program w req = (es, r)" using Inl e by (simp add: run_program_ended)
  from before_try_typed[OF assms(1-3) Inl[unfolded e]] assms(4) rp
  have "r = Returned" and "\<exists>st env. es = [Mkdir (tempDir w), Rm (tempDir w)] @ [Respond st env]"
    by auto
  then obtain st env where "run_program w req = ([Mkdir (tempDir w), Rm (tempDir w)] @ [Respond st env], Returned)"
    using rp by blast
  moreover have "removals (tempDir w) [Mkdir (tempDir w), Rm (tempDir w)] = 1"
    "responses [Mkdir (tempDir w), Rm (tempDir w)] = []"
    by (simp_all add: removals_def)
  ultimately show ?thesis by blast
next
  case (Inr reached)
  obtain lang fileName where lf: "reached = (lang, fileName)" by (cases reached) auto
  have rp: "run_program w req = (Mkdir (tempDir w) # try_catch w req lang fileName, Returned)"
    using Inr lf by (simp add: run_program_reached)
  from try_catch_cases[of w req lang fileName] show ?thesis
  proof (elim disjE exE conjE)
    fix ws e
    assume t: "try_catch w req lang fileName =
        ws @ [Rm (tempDir w), Respond 500 \<lparr>responseCode = 202, output' = err_message e,
                errorMessage = ''Internal server error occurred.''\<rparr>]"
      and ws: "list_all is_write ws"
    have "run_program w req = ((Mkdir (tempDir w) # ws @ [Rm (tempDir w)]) @ [Respond 500 \<lparr>responseCode = 202, output' = err_message e,
                errorMessage = ''Internal server error occurred.''\<rparr>], Returned)"
      using rp t by simp
    moreover have "removals (tempDir w) (Mkdir (tempDir w) # ws @ [Rm (tempDir w)]) = 1"
      using writes_no_removal[OF ws, of "tempDir w"] by (simp add: removals_def)
    moreover have "responses (Mkdir (tempDir w) # ws @ [Rm (tempDir w)]) = []"
      using writes_no_response[OF ws] by (simp add: responses_append)
    ultimately show ?thesis by blast
  next
    fix ws k e
    assume t: "try_catch w req lang fileName =
        ws @ [Exec k, Rm (tempDir w), Respond 500 \<lparr>responseCode = 202, output' = err_message e,
                errorMessage = ''Internal server error occurred.''\<rparr>]"
      and ws: "list_all is_write ws"
    have "run_program w req = ((Mkdir (tempDir w) # ws @ [Exec k, Rm (tempDir w)]) @ [Respond 500 \<lparr>responseCode = 202, output' = err_message e,
                errorMessage = ''Internal server error occurred.''\<rparr>], Returned)"
      using rp t by simp
    moreover have "removals (tempDir w) (Mkdir (tempDir w) # ws @ [Exec k, Rm (tempDir w)]) = 1"
      using writes_no_removal[OF ws, of "tempDir w"] by (simp add: removals_def)
    moreover have "responses (Mkdir (tempDir w) # ws @ [Exec k, Rm (tempDir w)]) = []"
      using writes_no_response[OF ws] by (simp add: responses_append)
    ultimately show ?thesis by blast
  next
    fix ws k error out err
    assume t: "try_catch w req lang fileName = ws @ Exec k # exec_callback (tempDir w) error out err"
      and ws: "list_all is_write ws"
    obtain st env where cb: "exec_callback (tempDir w) error out err = [Rm (tempDir w), Respond st env]"
      using exec_callback_shape by blast
    have "run_program w req = ((Mkdir (tempDir w) # ws @ [Exec k, Rm (tempDir w)]) @ [Respond st env], Returned)"
      using rp t cb by simp
    moreover have "removals (tempDir w) (Mkdir (tempDir w) # ws @ [Exec k, Rm (tempDir w)]) = 1"
      using writes_no_removal[OF ws, of "tempDir w"] by (simp add: removals_def)
    moreover have "responses (Mkdir (tempDir w) # ws @ [Exec k, Rm (tempDir w)]) = []"
      using writes_no_response[OF ws] by (simp add: responses_append)
    ultimately show ?thesis by blast
  qed
qed

theorem cleanup_once_before_response_witness:
  "\<exists>pre st env. run_program world_ok (python_request (JArr [''1'', ''2''])) = (pre @ [Respond st env], Returned)
     \<and> removals (tempDir world_ok) pre = 1 \<and> responses pre = []"
proof -
  have m: "Mkdir (tempDir world_ok) \<in> set (fst (run_program world_ok (python_request (JArr [''1'', ''2'']))))"
    by code_simp
  show ?thesis
    using cleanup_once_before_response[of "python_request (JArr [''1'', ''2''])" "''print(1)''" "''Python''" world_ok, OF _ _ _ m]
    by (simp add: world_defs)
qed

section \<open>The worker pool (claim C9)\<close>

text \<open>
  Claim C9: at startup the supervisor forks exactly one worker per CPU core, and whenever
  a worker exits, for any reason, it forks exactly one replacement, so that the pool
  keeps its size, with no backoff and no crash-loop detection. After the start-up loop
  the workers are those of the forks \<open>0\<close> to \<open>numCPUs - 1\<close>; after any sequence of
  exits of workers alive at the time, the pool again holds \<open>numCPUs\<close> different
  workers, and the number of forks is \<open>numCPUs\<close> plus the number of exits.
\<close>

theorem C9_pool_maintained:
  assumes "run_exits (master_start numCPUs) exits = Some s"
  shows "workers (master_start numCPUs) = [0..<numCPUs]
       \<and> forked (master_start numCPUs) = numCPUs
       \<and> length (workers s) = numCPUs \<and> distinct (workers s)
       \<and> forked s = numCPUs + length exits"
  using run_exits_pool[OF master_start_ok assms]
  by (simp add: master_start_pool pool_ok_def)

theorem C9_pool_maintained_witness:
  "run_exits (master_start 3) [0, 2, 3] = Some \<lparr>workers = [1, 4, 5], forked = 6\<rparr>
   \<and> length (workers \<lparr>workers = [1, 4, 5], forked = 6\<rparr>) = (3::nat)
   \<and> forked \<lparr>workers = [1::nat, 4, 5], forked = 6\<rparr> = 3 + length [0::nat, 2, 3]"
proof -
  have r: "run_exits (master_start 3) [0, 2, 3] = Some \<lparr>workers = [1, 4, 5], forked = 6\<rparr>"
    by (simp add: master_start_pool on_exit_def cluster_fork_def upt_conv_Cons)
  from C9_pool_maintained[OF r] r show ?thesis by simp
qed

section \<open>Execution outcomes (claims C2 and C8)\<close>

lemma exec_in_run:
  assumes "Exec k \<in> set (fst (run_program w req))"
  shows "(\<exists>ws e. fst (run_program w req) =
            Mkdir (tempDir w) # ws @ [Exec k, Rm (tempDir w),
              Respond 500 \<lparr>responseCode = 202, output' = err_message e,
                            errorMessage = ''Internal server error occurred.''\<rparr>]
          \<and> list_all is_write ws \<and> exec_result w k = ExecThrows e)
       \<or> (\<exists>ws error out err. fst (run_program w req) =
            Mkdir (tempDir w) # ws @ Exec k # exec_callback (tempDir w) error out err
          \<and> list_all is_write ws \<and> exec_result w k = ExecCallback error out err)"
proof (cases "before_try w req")
  case (Inl ended)
  obtain es r where e: "ended = (es, r)" by (cases ended) auto
  have "run_program w req = (es, r)" using Inl e by (simp add: run_program_ended)
  then show ?thesis using assms before_try_Inl_no_exec[OF Inl[unfolded e], of k] by simp
next
  case (Inr reached)
  obtain lang fileName where lf: "reached = (lang, fileName)" by (cases reached) auto
  have rp: "fst (run_program w req) = Mkdir (tempDir w) # try_catch w req lang fileName"
    using Inr lf by (simp add: run_program_reached)
  then have x: "Exec k \<in> set (try_catch w req lang fileName)" using assms by simp
  from try_catch_cases[of w req lang fileName] show ?thesis
  proof (elim disjE exE conjE)
    fix ws e
    assume t: "try_catch w req lang fileName =
        ws @ [Rm (tempDir w), Respond 500 \<lparr>responseCode = 202, output' = err_message e,
                errorMessage = ''Internal server error occurred.''\<rparr>]"
      and ws: "list_all is_write ws"
    then show ?thesis using x writes_no_exec[OF ws, of k] by simp
  next
    fix ws k' e
    assume t: "try_catch w req lang fileName =
        ws @ [Exec k', Rm (tempDir w), Respond 500 \<lparr>responseCode = 202, output' = err_message e,
                errorMessage = ''Internal server error occurred.''\<rparr>]"
      and ws: "list_all is_write ws" and r: "exec_result w k' = ExecThrows e"
    have "k' = k" using x t writes_no_exec[OF ws, of k] by simp
    then show ?thesis using rp t ws r by auto
  next
    fix ws k' error out err
    assume t: "try_catch w req lang fileName = ws @ Exec k' # exec_callback (tempDir w) error out err"
      and ws: "list_all is_write ws" and r: "exec_result w k' = ExecCallback error out err"
    obtain st env where cb: "exec_callback (tempDir w) error out err = [Rm (tempDir w), Respond st env]"
      using exec_callback_shape by blast
    have "k' = k" using x t cb writes_no_exec[OF ws, of k] by simp
    then show ?thesis using rp t ws r by auto
  qed
qed

lemma responses_after_callback:
  assumes "Exec k \<in> set (fst (run_program w req))"
    and "exec_result w k = ExecCallback error out err"
  shows "responses (fst (run_program w req)) = responses (exec_callback (tempDir w) error out err)"
proof -
  from exec_in_run[OF assms(1)] assms(2)
  obtain ws where t: "fst (run_program w req) =
            Mkdir (tempDir w) # ws @ Exec k # exec_callback (tempDir w) error out err"
    and ws: "list_all is_write ws" by auto
  show ?thesis unfolding t using writes_no_response[OF ws] by (simp add: responses_append)
qed

text \<open>
  Claim C2, as amended: when the execution is killed by the timeout, the response has
  \<open>responseCode\<close> 202, the message \<open>Execution timed out after 30 seconds.\<close> in the
  \<open>output\<close> field and an empty \<open>errorMessage\<close> field.
\<close>

theorem C2_timeout_response:
  assumes "Exec command \<in> set (fst (run_program w req))"
    and "exec_result w command = ExecCallback (Some e) stdout stderr"
    and "killed e"
  shows "responses (fst (run_program w req)) =
           [(500, \<lparr>responseCode = 202, output' = ''Execution timed out after 30 seconds.'',
                   errorMessage = ''''\<rparr>)]"
  unfolding responses_after_callback[OF assms(1,2)]
  using assms(3) by (simp add: exec_callback_def cleanup_def)

theorem C2_timeout_response_witness:
  "responses (fst (run_program world_timeout (python_request JUndefined))) =
     [(500, \<lparr>responseCode = 202, output' = ''Execution timed out after 30 seconds.'',
             errorMessage = ''''\<rparr>)]"
proof -
  have x: "Exec ''python3 /app/temp/t1/Program.py''
             \<in> set (fst (run_program world_timeout (python_request JUndefined)))"
    by code_simp
  have r: "exec_result world_timeout ''python3 /app/temp/t1/Program.py''
             = ExecCallback (Some \<lparr>killed = True, message = ''Command failed''\<rparr>) [] []"
    by (simp add: world_defs)
  show ?thesis by (rule C2_timeout_response[OF x r]) simp
qed

text \<open>
  Claim C2 as stated fails: for a Python request whose process is killed by the timeout,
  the \<open>output\<close> field is not empty and the \<open>errorMessage\<close> field is not the timeout
  message.
\<close>

theorem C2_counterexample:
  "exec_result world_timeout ''python3 /app/temp/t1/Program.py''
     = ExecCallback (Some \<lparr>killed = True, message = ''Command failed''\<rparr>) [] []
   \<and> fst (run_program world_timeout (python_request JUndefined)) =
      [Mkdir ''/app/temp/t1'',
       WriteFile ''/app/temp/t1/Program.py'' (JStr ''print(1)''),
       Exec ''python3 /app/temp/t1/Program.py'',
       Rm ''/app/temp/t1'',
       Respond 500 \<lparr>responseCode = 202, output' = ''Execution timed out after 30 seconds.'',
                     errorMessage = ''''\<rparr>]
   \<and> output' \<lparr>responseCode = 202, output' = ''Execution timed out after 30 seconds.'',
                errorMessage = ''''\<rparr> \<noteq> ''''
   \<and> errorMessage \<lparr>responseCode = 202, output' = ''Execution timed out after 30 seconds.'',
                     errorMessage = ''''\<rparr>
       \<noteq> ''Execution timed out after the configured duration.''"
  by code_simp

lemma str_includes_iff: "str_includes s sub \<longleftrightarrow> (\<exists>pre post. s = pre @ sub @ post)"
proof (induction s)
  case Nil
  then show ?case by auto
next
  case (Cons c cs)
  show ?case
  proof
    assume "str_includes (c # cs) sub"
    then consider "take (length sub) (c # cs) = sub" | "str_includes cs sub" by auto
    then show "\<exists>pre post. c # cs = pre @ sub @ post"
    proof cases
      case 1
      then have "c # cs = [] @ sub @ drop (length sub) (c # cs)"
        using append_take_drop_id[of "length sub" "c # cs"] by simp
      then show ?thesis by blast
    next
      case 2
      then obtain pre post where "cs = pre @ sub @ post" using Cons.IH by blast
      then have "c # cs = (c # pre) @ sub @ post" by simp
      then show ?thesis by blast
    qed
  next
    assume "\<exists>pre post. c # cs = pre @ sub @ post"
    then obtain pre post where p: "c # cs = pre @ sub @ post" by blast
    show "str_includes (c # cs) sub"
    proof (cases pre)
      case Nil
      then have "take (length sub) (c # cs) = sub" using p by simp
      then show ?thesis by simp
    next
      case (Cons a pre')
      then have "cs = pre' @ sub @ post" using p by simp
      then have "str_includes cs sub" using Cons.IH by blast
      then show ?thesis by simp
    qed
  qed
qed

lemma trim_empty: "trim s = [] \<Longrightarrow> list_all is_space s"
proof -
  assume "trim s = []"
  then have "dropWhile is_space (rev (dropWhile is_space s)) = []" unfolding trim_def by simp
  then have a: "\<forall>x\<in>set (dropWhile is_space s). is_space x" by (simp add: dropWhile_eq_Nil_conv)
  have "dropWhile is_space s = []"
  proof (cases "dropWhile is_space s")
    case Nil then show ?thesis .
  next
    case (Cons y ys)
    then have "\<not> is_space y" by (simp add: dropWhile_eq_Cons_conv)
    then show ?thesis using a Cons by simp
  qed
  then show ?thesis by (simp add: dropWhile_eq_Nil_conv list_all_iff)
qed

lemma error_not_space: "\<not> is_space CHR ''e''"
  by code_simp

lemma includes_error_trim:
  assumes "s = pre @ ''error'' @ post"
  shows "trim s \<noteq> []"
proof
  assume "trim s = []"
  then have "list_all is_space s" by (rule trim_empty)
  then have "is_space CHR ''e''" unfolding assms by (simp add: list_all_iff)
  then show False using error_not_space by simp
qed

lemma trim_trimmed: "trimmed s (trim s)"
proof -
  let ?b = "dropWhile is_space s"
  let ?pre = "takeWhile is_space s"
  let ?post = "rev (takeWhile is_space (rev ?b))"
  have t: "trim s = rev (dropWhile is_space (rev ?b))" unfolding trim_def by simp
  have b: "?b = trim s @ ?post"
    unfolding t by (metis rev_append rev_rev_ident takeWhile_dropWhile_id)
  have "s = ?pre @ ?b" by simp
  then have s: "s = ?pre @ trim s @ ?post" using b by metis
  have pre: "list_all is_space ?pre" by (auto simp: list_all_iff dest: set_takeWhileD)
  have post: "list_all is_space ?post" by (auto simp: list_all_iff dest: set_takeWhileD)
  have ends: "(case trim s of [] \<Rightarrow> True | x # xs \<Rightarrow> \<not> is_space x \<and> \<not> is_space (last (trim s)))"
  proof (cases "trim s")
    case Nil
    then show ?thesis by simp
  next
    case (Cons x xs)
    then have "?b = x # (xs @ ?post)" using b by simp
    then have h: "\<not> is_space x" by (simp add: dropWhile_eq_Cons_conv)
    have ne: "dropWhile is_space (rev ?b) \<noteq> []"
    proof
      assume "dropWhile is_space (rev ?b) = []"
      then have "trim s = []" unfolding t by (simp only: rev.simps)
      then show False using Cons by simp
    qed
    then obtain y ys where d: "dropWhile is_space (rev ?b) = y # ys"
      by (cases "dropWhile is_space (rev ?b)") auto
    have y: "\<not> is_space y" using d dropWhile_eq_Cons_conv[of is_space "rev ?b" y ys] by blast
    have "trim s = rev (y # ys)" unfolding t d ..
    then have "last (trim s) = y" by simp
    then show ?thesis using Cons h y by simp
  qed
  show ?thesis unfolding trimmed_def using s pre post ends by blast
qed

lemma trim_spaces:
  assumes "list_all is_space s"
  shows "trim s = []"
proof -
  have d: "dropWhile is_space s = []"
    using assms by (simp add: list_all_iff dropWhile_eq_Nil_conv)
  show ?thesis unfolding trim_def d by simp
qed

lemma trimmed_unique:
  assumes "trimmed s t"
  shows "t = trim s"
proof -
  from assms obtain pre post where s: "s = pre @ t @ post"
    and pre: "list_all is_space pre" and post: "list_all is_space post"
    and ends: "(case t of [] \<Rightarrow> True | x # xs \<Rightarrow> \<not> is_space x \<and> \<not> is_space (last t))"
    unfolding trimmed_def by blast
  show ?thesis
  proof (cases t)
    case Nil
    then have "list_all is_space s" using s pre post by simp
    then show ?thesis using Nil trim_spaces by simp
  next
    case (Cons x xs)
    then have hx: "\<not> is_space x" and lx: "\<not> is_space (last t)" using ends by simp_all
    have p: "\<forall>z\<in>set pre. is_space z" using pre by (simp add: list_all_iff)
    have q: "\<forall>z\<in>set (rev post). is_space z" using post by (simp add: list_all_iff)
    have d1: "dropWhile is_space s = t @ post"
      unfolding s Cons using p hx by (simp add: dropWhile_append3)
    obtain y ys where r: "rev t = y # ys" using Cons by (cases "rev t") auto
    have "y = last t" using r Cons by (metis last_rev list.sel(1) rev_rev_ident hd_rev)
    then have hy: "\<not> is_space y" using lx by simp
    have "dropWhile is_space (rev (t @ post)) = dropWhile is_space (rev post @ y # ys)"
      using r by simp
    also have "\<dots> = y # ys" using q hy by (simp add: dropWhile_append3)
    finally have d2: "dropWhile is_space (rev (t @ post)) = rev t" using r by simp
    show ?thesis unfolding trim_def d1 d2 by simp
  qed
qed

text \<open>
  Claim C8, as amended: when the execution reports an error that is not a timeout, the
  response has \<open>responseCode\<close> 202; if standard error contains \<open>error\<close>, the output is
  the trimmed standard error and the message is \<open>Compilation error occurred.\<close>;
  otherwise the output is the trimmed standard error, or the error's own message when
  the trimmed standard error is empty, as it also is when standard error holds only
  white space, and the message is \<open>Runtime error occurred.\<close> The trimmed standard error
  is standard error without its leading and trailing white space.
\<close>

theorem C8_error_response:
  assumes "Exec command \<in> set (fst (run_program w req))"
    and "exec_result w command = ExecCallback (Some e) stdout stderr"
    and "\<not> killed e"
    and "trimmed stderr out"
  shows "((\<exists>pre post. stderr = pre @ ''error'' @ post) \<longrightarrow>
            responses (fst (run_program w req)) =
              [(500, \<lparr>responseCode = 202, output' = out,
                      errorMessage = ''Compilation error occurred.''\<rparr>)])
       \<and> (\<not> (\<exists>pre post. stderr = pre @ ''error'' @ post) \<longrightarrow>
            responses (fst (run_program w req)) =
              [(500, \<lparr>responseCode = 202,
                      output' = (if out = [] then message e else out),
                      errorMessage = ''Runtime error occurred.''\<rparr>)])"
proof (intro conjI impI)
  have out: "out = trim stderr" using assms(4) by (rule trimmed_unique)
  {
    assume "\<exists>pre post. stderr = pre @ ''error'' @ post"
    then obtain pre post where s: "stderr = pre @ ''error'' @ post" by blast
    have i: "str_includes stderr ''error''" using s str_includes_iff by blast
    have t: "trim stderr \<noteq> []" using s by (rule includes_error_trim)
    show "responses (fst (run_program w req)) =
              [(500, \<lparr>responseCode = 202, output' = out,
                      errorMessage = ''Compilation error occurred.''\<rparr>)]"
      unfolding responses_after_callback[OF assms(1,2)] out
      using assms(3) i t by (simp add: exec_callback_def cleanup_def)
  }
  {
    assume "\<not> (\<exists>pre post. stderr = pre @ ''error'' @ post)"
    then have i: "\<not> str_includes stderr ''error''" using str_includes_iff by blast
    show "responses (fst (run_program w req)) =
              [(500, \<lparr>responseCode = 202,
                      output' = (if out = [] then message e else out),
                      errorMessage = ''Runtime error occurred.''\<rparr>)]"
      unfolding responses_after_callback[OF assms(1,2)] out
      using assms(3) i by (simp add: exec_callback_def cleanup_def)
  }
qed

theorem C8_error_response_witness:
  "responses (fst (run_program (world_fail '' a.c:1: error: x '') (python_request JUndefined))) =
     [(500, \<lparr>responseCode = 202, output' = ''a.c:1: error: x'',
             errorMessage = ''Compilation error occurred.''\<rparr>)]
   \<and> responses (fst (run_program (world_fail '' Killed '') (python_request JUndefined))) =
     [(500, \<lparr>responseCode = 202, output' = ''Killed'',
             errorMessage = ''Runtime error occurred.''\<rparr>)]
   \<and> responses (fst (run_program (world_fail '' '') (python_request JUndefined))) =
     [(500, \<lparr>responseCode = 202, output' = ''Command failed'',
             errorMessage = ''Runtime error occurred.''\<rparr>)]"
proof (intro conjI)
  have x: "Exec ''python3 /app/temp/t1/Program.py''
             \<in> set (fst (run_program (world_fail '' a.c:1: error: x '') (python_request JUndefined)))"
    by code_simp
  have r: "exec_result (world_fail '' a.c:1: error: x '') ''python3 /app/temp/t1/Program.py''
             = ExecCallback (Some \<lparr>killed = False, message = ''Command failed''\<rparr>) [] '' a.c:1: error: x ''"
    by (simp add: world_defs)
  have k: "\<not> killed \<lparr>killed = False, message = ''Command failed''\<rparr>" by simp
  have sp: "is_space CHR '' ''" and a: "\<not> is_space CHR ''a''" and xx: "\<not> is_space CHR ''x''"
    by code_simp+
  have t: "trimmed '' a.c:1: error: x '' ''a.c:1: error: x''"
    unfolding trimmed_def
  proof (intro exI conjI)
    show "'' a.c:1: error: x '' = '' '' @ ''a.c:1: error: x'' @ '' ''" by simp
    show "list_all is_space '' ''" using sp by simp
    show "list_all is_space '' ''" using sp by simp
    show "case ''a.c:1: error: x'' of [] \<Rightarrow> True | x # xs \<Rightarrow> \<not> is_space x \<and> \<not> is_space (last ''a.c:1: error: x'')"
      using a xx by simp
  qed
  have "'' a.c:1: error: x '' = '' a.c:1: '' @ ''error'' @ '': x ''" by simp
  then have i: "\<exists>pre post. '' a.c:1: error: x '' = pre @ ''error'' @ post" by blast
  from C8_error_response[OF x r k t] i
  show "responses (fst (run_program (world_fail '' a.c:1: error: x '') (python_request JUndefined))) =
     [(500, \<lparr>responseCode = 202, output' = ''a.c:1: error: x'',
             errorMessage = ''Compilation error occurred.''\<rparr>)]"
    by blast
next
  have x: "Exec ''python3 /app/temp/t1/Program.py''
             \<in> set (fst (run_program (world_fail '' Killed '') (python_request JUndefined)))"
    by code_simp
  have r: "exec_result (world_fail '' Killed '') ''python3 /app/temp/t1/Program.py''
             = ExecCallback (Some \<lparr>killed = False, message = ''Command failed''\<rparr>) [] '' Killed ''"
    by (simp add: world_defs)
  have k: "\<not> killed \<lparr>killed = False, message = ''Command failed''\<rparr>" by simp
  have sp: "is_space CHR '' ''" and a: "\<not> is_space CHR ''K''" and xx: "\<not> is_space CHR ''d''"
    by code_simp+
  have t: "trimmed '' Killed '' ''Killed''"
    unfolding trimmed_def
  proof (intro exI conjI)
    show "'' Killed '' = '' '' @ ''Killed'' @ '' ''" by simp
    show "list_all is_space '' ''" using sp by simp
    show "list_all is_space '' ''" using sp by simp
    show "case ''Killed'' of [] \<Rightarrow> True | x # xs \<Rightarrow> \<not> is_space x \<and> \<not> is_space (last ''Killed'')"
      using a xx by simp
  qed
  have "\<not> str_includes '' Killed '' ''error''" by code_simp
  then have i: "\<not> (\<exists>pre post. '' Killed '' = pre @ ''error'' @ post)"
    using str_includes_iff by blast
  from C8_error_response[OF x r k t] i
  show "responses (fst (run_program (world_fail '' Killed '') (python_request JUndefined))) =
     [(500, \<lparr>responseCode = 202, output' = ''Killed'',
             errorMessage = ''Runtime error occurred.''\<rparr>)]"
    by auto
next
  have x: "Exec ''python3 /app/temp/t1/Program.py''
             \<in> set (fst (run_program (world_fail '' '') (python_request JUndefined)))"
    by code_simp
  have r: "exec_result (world_fail '' '') ''python3 /app/temp/t1/Program.py''
             = ExecCallback (Some \<lparr>killed = False, message = ''Command failed''\<rparr>) [] '' ''"
    by (simp add: world_defs)
  have k: "\<not> killed \<lparr>killed = False, message = ''Command failed''\<rparr>" by simp
  have sp: "is_space CHR '' ''" by code_simp
  have t: "trimmed '' '' []"
    unfolding trimmed_def
  proof (intro exI conjI)
    show "'' '' = '' '' @ [] @ []" by simp
    show "list_all is_space '' ''" using sp by simp
    show "list_all is_space []" by simp
    show "case [] :: string of [] \<Rightarrow> True | x # xs \<Rightarrow> \<not> is_space x \<and> \<not> is_space (last ([] :: string))"
      by simp
  qed
  have "\<not> str_includes '' '' ''error''" by code_simp
  then have i: "\<not> (\<exists>pre post. '' '' = pre @ ''error'' @ post)" using str_includes_iff by blast
  from C8_error_response[OF x r k t] i
  show "responses (fst (run_program (world_fail '' '') (python_request JUndefined))) =
     [(500, \<lparr>responseCode = 202, output' = ''Command failed'',
             errorMessage = ''Runtime error occurred.''\<rparr>)]"
    by auto
qed

text \<open>
  Claim C8 as stated fails: when standard error is a single space, it is not empty and
  does not contain \<open>error\<close>, so the claim gives the trimmed standard error, the empty
  string, as output; the handler gives the error's own message.
\<close>

theorem C8_counterexample:
  "exec_result (world_fail '' '') ''python3 /app/temp/t1/Program.py''
     = ExecCallback (Some \<lparr>killed = False, message = ''Command failed''\<rparr>) [] '' ''
   \<and> '' '' \<noteq> ''''
   \<and> \<not> str_includes '' '' ''error''
   \<and> trim '' '' = ''''
   \<and> fst (run_program (world_fail '' '') (python_request JUndefined)) =
      [Mkdir ''/app/temp/t1'',
       WriteFile ''/app/temp/t1/Program.py'' (JStr ''print(1)''),
       Exec ''python3 /app/temp/t1/Program.py'',
       Rm ''/app/temp/t1'',
       Respond 500 \<lparr>responseCode = 202, output' = ''Command failed'',
                     errorMessage = ''Runtime error occurred.''\<rparr>]
   \<and> ''Command failed'' \<noteq> ''''"
  by code_simp

section \<open>Requests that reach the \<open>try\<close> statement\<close>

lemma before_try_reached:
  "before_try w req = Inr (lang, fileName) \<longleftrightarrow>
     admitted req \<and> mkdir_result w = None
     \<and> language_toLowerCase (language req) = Inr lang
     \<and> (\<exists>ext. fileExtensions lang = Some ext
          \<and> (if lang = ''java''
              then \<exists>className. code_match (code req) = Inr (Some className)
                     \<and> fileName = className @ ''.java''
              else fileName = ''Program.'' @ extension_string ext))"
  unfolding before_try_def admitted_def
  by (auto simp: Let_def split: option.splits sum.splits)

lemma reached_not_input_file:
  assumes "before_try w req = Inr (lang, fileName)"
  shows "fileName \<noteq> ''input.txt''"
proof
  assume f: "fileName = ''input.txt''"
  from assms obtain ext where
    c: "if lang = ''java''
        then \<exists>className. code_match (code req) = Inr (Some className)
               \<and> fileName = className @ ''.java''
        else fileName = ''Program.'' @ extension_string ext"
    unfolding before_try_reached by blast
  show False
  proof (cases "lang = ''java''")
    case True
    then obtain className where "fileName = className @ ''.java''" using c by auto
    then have "last fileName = CHR ''a''" by simp
    then show False using f by simp
  next
    case False
    then have "hd fileName = CHR ''P''" using c by simp
    then show False using f by simp
  qed
qed

lemma path_join_inject: "path_join d a = path_join d b \<longleftrightarrow> a = b"
  unfolding path_join_def by simp

lemma prepare_input_array:
  "prepare_input w req =
     (case input req of
        JArr xs \<Rightarrow>
          ([WriteFile (path_join (tempDir w) ''input.txt'') (JStr (join [CHR 0x0A] xs))],
           case writeFile_result w (path_join (tempDir w) ''input.txt'') (JStr (join [CHR 0x0A] xs)) of
             Some e \<Rightarrow> Inl e
           | None \<Rightarrow> Inr (Some (path_join (tempDir w) ''input.txt'')))
      | v \<Rightarrow> if truthy v then ([], Inl (Error ''Input should be an array of strings.''))
             else ([], Inr None))"
  unfolding prepare_input_def prepareInputFile_def
  by (auto simp: Let_def split: jsval.splits option.splits)

lemma run_exec_no_write: "run_exec w command = (es, r) \<Longrightarrow> filter is_write es = []"
  using exec_callback_shape[of "tempDir w"]
  unfolding run_exec_def
  by (auto split: option.splits exec_outcome.splits) (metis filter.simps is_write.simps(3,5))

lemma try_body_writes:
  assumes "writeFile_result w (path_join (tempDir w) fileName) (code req) = None"
  shows "filter is_write (fst (try_body w req lang fileName)) =
           WriteFile (path_join (tempDir w) fileName) (code req) # fst (prepare_input w req)"
proof -
  obtain acts prep where prep: "prepare_input w req = (acts, prep)"
    by (cases "prepare_input w req") auto
  have w: "filter is_write acts = acts"
    using prepare_input_writes[OF prep] by (simp add: list_all_iff)
  show ?thesis
  proof (cases prep)
    case (Inl e)
    then show ?thesis using assms prep w unfolding try_body_def by (simp add: Let_def)
  next
    case (Inr ip)
    obtain xs thrown where ex: "run_exec w (executionCommand lang (tempDir w) fileName (path_join (tempDir w) fileName) ip) = (xs, thrown)"
      by (cases "run_exec w (executionCommand lang (tempDir w) fileName (path_join (tempDir w) fileName) ip)") auto
    show ?thesis using assms prep w Inr ex run_exec_no_write[OF ex]
      unfolding try_body_def by (simp add: Let_def)
  qed
qed

lemma try_catch_writes:
  assumes "writeFile_result w (path_join (tempDir w) fileName) (code req) = None"
  shows "filter is_write (try_catch w req lang fileName) =
           WriteFile (path_join (tempDir w) fileName) (code req) # fst (prepare_input w req)"
  using try_body_writes[OF assms, of lang]
  unfolding try_catch_def cleanup_def
  by (cases "try_body w req lang fileName") (auto split: option.splits)

section \<open>The input file (claims C6 and C10)\<close>

text \<open>
  Claim C6, as amended: for every request that reaches the \<open>try\<close> statement and whose
  source file is written, the handler writes \<open>input.txt\<close> in the workspace if and only
  if \<open>input\<close> is an array, and then with the entries joined by line feeds; the empty
  array counts, and gives an empty input file.
\<close>

theorem C6_input_file_written:
  assumes "before_try w req = Inr (lang, fileName)"
    and "writeFile_result w (path_join (tempDir w) fileName) (code req) = None"
  shows "WriteFile (path_join (tempDir w) ''input.txt'') content \<in> set (fst (run_program w req))
         \<longleftrightarrow> (\<exists>xs. input req = JArr xs \<and> content = JStr (join [CHR 0x0A] xs))"
proof -
  have n: "path_join (tempDir w) ''input.txt'' \<noteq> path_join (tempDir w) fileName"
    using reached_not_input_file[OF assms(1)] by (simp add: path_join_inject)
  have "WriteFile (path_join (tempDir w) ''input.txt'') content \<in> set (fst (run_program w req))
        \<longleftrightarrow> WriteFile (path_join (tempDir w) ''input.txt'') content
              \<in> set (filter is_write (try_catch w req lang fileName))"
    unfolding run_program_reached[OF assms(1)] by simp
  also have "\<dots> \<longleftrightarrow> WriteFile (path_join (tempDir w) ''input.txt'') content
              \<in> set (fst (prepare_input w req))"
    unfolding try_catch_writes[OF assms(2)] using n by simp
  also have "\<dots> \<longleftrightarrow> (\<exists>xs. input req = JArr xs \<and> content = JStr (join [CHR 0x0A] xs))"
    unfolding prepare_input_array by (auto split: jsval.splits)
  finally show ?thesis .
qed

theorem C6_input_file_written_witness:
  "WriteFile (path_join (tempDir world_ok) ''input.txt'') (JStr [CHR ''1'', CHR 0x0A, CHR ''2''])
     \<in> set (fst (run_program world_ok (python_request (JArr [''1'', ''2'']))))"
proof -
  have b: "before_try world_ok (python_request (JArr [''1'', ''2''])) = Inr (''python'', ''Program.py'')"
    by code_simp
  have s: "writeFile_result world_ok (path_join (tempDir world_ok) ''Program.py'')
             (code (python_request (JArr [''1'', ''2'']))) = None"
    by (simp add: world_defs)
  have "\<exists>xs. input (python_request (JArr [''1'', ''2''])) = JArr xs
          \<and> JStr [CHR ''1'', CHR 0x0A, CHR ''2''] = JStr (join [CHR 0x0A] xs)"
    by (simp add: world_defs)
  then show ?thesis using C6_input_file_written[OF b s] by blast
qed

text \<open>
  Claim C6 as stated fails: an empty input array is truthy, so the handler writes an
  (empty) input file and redirects standard input from it.
\<close>

theorem C6_counterexample:
  "fst (run_program world_ok (python_request (JArr []))) =
     [Mkdir ''/app/temp/t1'',
      WriteFile ''/app/temp/t1/Program.py'' (JStr ''print(1)''),
      WriteFile ''/app/temp/t1/input.txt'' (JStr ''''),
      Exec ''python3 /app/temp/t1/Program.py < /app/temp/t1/input.txt'',
      Rm ''/app/temp/t1'',
      Respond 200 \<lparr>responseCode = 201, output' = ''ok'', errorMessage = ''''\<rparr>]"
  by code_simp

text \<open>
  Claim C10, as amended: for every request that reaches the \<open>try\<close> statement and whose
  \<open>input\<close> is truthy and not an array, the handler writes the source file, removes
  the workspace once and responds with \<open>responseCode\<close> 202 and the message
  \<open>Internal server error occurred.\<close>, without calling \<open>exec\<close>; the output is
  \<open>Input should be an array of strings.\<close> when the source file could be written.
\<close>

theorem C10_non_array_input:
  assumes "before_try w req = Inr (lang, fileName)"
    and "truthy (input req)"
    and "\<forall>xs. input req \<noteq> JArr xs"
  shows "\<exists>msg. run_program w req =
           ([Mkdir (tempDir w),
             WriteFile (path_join (tempDir w) fileName) (code req),
             Rm (tempDir w),
             Respond 500 \<lparr>responseCode = 202, output' = msg,
                           errorMessage = ''Internal server error occurred.''\<rparr>], Returned)
         \<and> (writeFile_result w (path_join (tempDir w) fileName) (code req) = None
              \<longrightarrow> msg = ''Input should be an array of strings.'')"
proof -
  have p: "prepare_input w req = ([], Inl (Error ''Input should be an array of strings.''))"
    unfolding prepare_input_array using assms(2,3) by (auto split: jsval.splits)
  show ?thesis
  proof (cases "writeFile_result w (path_join (tempDir w) fileName) (code req)")
    case None
    then show ?thesis
      unfolding run_program_reached[OF assms(1)] try_catch_def try_body_def cleanup_def
      using p by (simp add: Let_def)
  next
    case (Some e)
    then show ?thesis
      unfolding run_program_reached[OF assms(1)] try_catch_def try_body_def cleanup_def
      by (simp add: Let_def)
  qed
qed

theorem C10_non_array_input_witness:
  "run_program world_ok (python_request (JStr ''5'')) =
     ([Mkdir (tempDir world_ok),
       WriteFile (path_join (tempDir world_ok) ''Program.py'') (code (python_request (JStr ''5''))),
       Rm (tempDir world_ok),
       Respond 500 \<lparr>responseCode = 202, output' = ''Input should be an array of strings.'',
                     errorMessage = ''Internal server error occurred.''\<rparr>], Returned)"
proof -
  have b: "before_try world_ok (python_request (JStr ''5'')) = Inr (''python'', ''Program.py'')"
    by code_simp
  have t: "truthy (input (python_request (JStr ''5'')))" by (simp add: world_defs)
  have a: "\<forall>xs. input (python_request (JStr ''5'')) \<noteq> JArr xs" by (simp add: world_defs)
  have s: "writeFile_result world_ok (path_join (tempDir world_ok) ''Program.py'')
             (code (python_request (JStr ''5''))) = None"
    by (simp add: world_defs)
  from C10_non_array_input[OF b t a] s show ?thesis by auto
qed

text \<open>
  Claim C10 as stated fails: an empty string is a non-array input that passes the size
  check, but it is falsy, so no input file is prepared, nothing throws, and the
  program is run as if no input had been given.
\<close>

theorem C10_counterexample:
  "run_program world_ok (python_request (JStr '''')) =
     ([Mkdir ''/app/temp/t1'',
       WriteFile ''/app/temp/t1/Program.py'' (JStr ''print(1)''),
       Exec ''python3 /app/temp/t1/Program.py'',
       Rm ''/app/temp/t1'',
       Respond 200 \<lparr>responseCode = 201, output' = ''ok'', errorMessage = ''''\<rparr>], Returned)"
  by code_simp

section \<open>Validation failures (claims C3 and C4)\<close>





text \<open>
  Claim C4, as amended: a request with code and language is rejected by the size check,
  with \<open>responseCode\<close> 203 and before any workspace is created, if and only if its code
  has more than 5000 characters or its input has a length above 1000, the length of an
  array being the number of its entries and the length of a string the number of its
  characters. The input entries are not joined for the check.
\<close>

theorem C4_size_check:
  assumes "code req = JStr c" and "c \<noteq> []" and "truthy (language req)"
  shows "run_program w req =
           ([Respond 400 \<lparr>responseCode = 203,
                           output' = ''Code or input is too large. Please limit their sizes.'',
                           errorMessage = ''''\<rparr>], Returned)
         \<longleftrightarrow> (5000 < length c
              \<or> (case input req of
                    JArr xs \<Rightarrow> 1000 < length xs
                  | JStr s \<Rightarrow> 1000 < length s
                  | _ \<Rightarrow> False))"
proof -
  have size: "(js_gt (js_length (code req)) 5000
               \<or> (truthy (input req) \<and> js_gt (js_length (input req)) 1000))
              \<longleftrightarrow> (5000 < length c
                   \<or> (case input req of
                         JArr xs \<Rightarrow> 1000 < length xs
                       | JStr s \<Rightarrow> 1000 < length s
                       | _ \<Rightarrow> False))"
    using assms(1) by (auto split: jsval.splits)
  have t: "truthy (code req)" using assms(1,2) by simp
  show ?thesis
  proof (cases "js_gt (js_length (code req)) 5000
               \<or> (truthy (input req) \<and> js_gt (js_length (input req)) 1000)")
    case True
    then have "run_program w req =
           ([Respond 400 \<lparr>responseCode = 203,
                           output' = ''Code or input is too large. Please limit their sizes.'',
                           errorMessage = ''''\<rparr>], Returned)"
      using t assms(3) unfolding run_program_def before_try_def by auto
    then show ?thesis using True size by blast
  next
    case False
    have "\<exists>rest r. run_program w req = (Mkdir (tempDir w) # rest, r)"
      using False t assms(3) unfolding run_program_def before_try_def cleanup_def
      by (auto simp: Let_def split: option.splits sum.splits)
    then have "run_program w req \<noteq>
           ([Respond 400 \<lparr>responseCode = 203,
                           output' = ''Code or input is too large. Please limit their sizes.'',
                           errorMessage = ''''\<rparr>], Returned)"
      by auto
    then show ?thesis using False size by blast
  qed
qed

theorem C4_size_check_witness:
  "run_program world_ok (python_request (JArr (replicate 1001 ''''))) =
           ([Respond 400 \<lparr>responseCode = 203,
                           output' = ''Code or input is too large. Please limit their sizes.'',
                           errorMessage = ''''\<rparr>], Returned)"
proof -
  have c: "code (python_request (JArr (replicate 1001 ''''))) = JStr ''print(1)''"
    and l: "truthy (language (python_request (JArr (replicate 1001 ''''))))"
    and i: "input (python_request (JArr (replicate 1001 ''''))) = JArr (replicate 1001 '''')"
    by (simp_all add: python_request_def)
  show ?thesis
    using C4_size_check[OF c _ l, of world_ok] i by simp
qed

text \<open>
  Claim C4 as stated fails in both directions. An input of one entry of 1001 characters
  is longer than 1000 characters when joined, but has length 1 as an array, and is
  not rejected. An input of 1001 empty entries has 1000 characters when joined, but
  length 1001 as an array, and is rejected.
\<close>

theorem C4_counterexample:
  "1000 < length (join [CHR 0x0A] [replicate 1001 CHR ''a''])
   \<and> responses (fst (run_program world_ok (python_request (JArr [replicate 1001 CHR ''a''])))) =
       [(200, \<lparr>responseCode = 201, output' = ''ok'', errorMessage = ''''\<rparr>)]
   \<and> length (join [CHR 0x0A] (replicate 1001 '''')) \<le> 1000
   \<and> responses (fst (run_program world_ok (python_request (JArr (replicate 1001 ''''))))) =
       [(400, \<lparr>responseCode = 203,
               output' = ''Code or input is too large. Please limit their sizes.'',
               errorMessage = ''''\<rparr>)]"
  by code_simp

section \<open>The command (claim C5)\<close>

lemma run_exec_names:
  "run_exec w command = (xs, r) \<Longrightarrow> Exec k \<in> set xs \<Longrightarrow> command = Some k"
  unfolding run_exec_def exec_callback_def cleanup_def
  by (auto simp: Let_def split: option.splits exec_outcome.splits if_splits)

lemma exec_command:
  assumes "Exec k \<in> set (fst (run_program w req))"
  shows "\<exists>lang fileName. before_try w req = Inr (lang, fileName)
           \<and> executionCommand lang (tempDir w) fileName (path_join (tempDir w) fileName)
                (if truthy (input req) then Some (path_join (tempDir w) ''input.txt'') else None)
               = Some k"
proof (cases "before_try w req")
  case (Inl ended)
  obtain es r where e: "ended = (es, r)" by (cases ended) auto
  have "run_program w req = (es, r)" using Inl e by (simp add: run_program_ended)
  then show ?thesis using assms before_try_Inl_no_exec[OF Inl[unfolded e], of k] by simp
next
  case (Inr reached)
  obtain lang fileName where lf: "reached = (lang, fileName)" by (cases reached) auto
  have b: "before_try w req = Inr (lang, fileName)" using Inr lf by simp
  have x: "Exec k \<in> set (try_catch w req lang fileName)"
    using assms unfolding run_program_reached[OF b] by simp
  have x': "Exec k \<in> set (fst (try_body w req lang fileName))"
    using x unfolding try_catch_def cleanup_def
    by (cases "try_body w req lang fileName") (auto split: option.splits)
  obtain acts prep where prep: "prepare_input w req = (acts, prep)"
    by (cases "prepare_input w req") auto
  have na: "Exec k \<notin> set acts" using prepare_input_writes[OF prep] by (rule writes_no_exec)
  have src: "writeFile_result w (path_join (tempDir w) fileName) (code req) = None"
    using x' unfolding try_body_def by (auto simp: Let_def split: option.splits)
  obtain ip where ip: "prep = Inr ip"
    using x' src prep na unfolding try_body_def by (cases prep) (auto simp: Let_def)
  obtain xs thrown where ex: "run_exec w (executionCommand lang (tempDir w) fileName (path_join (tempDir w) fileName) ip) = (xs, thrown)"
    by (cases "run_exec w (executionCommand lang (tempDir w) fileName (path_join (tempDir w) fileName) ip)") auto
  have "Exec k \<in> set xs"
    using x' src prep ip ex na unfolding try_body_def by (auto simp: Let_def)
  then have cmd: "executionCommand lang (tempDir w) fileName (path_join (tempDir w) fileName) ip = Some k"
    using run_exec_names[OF ex] by simp
  have "ip = (if truthy (input req) then Some (path_join (tempDir w) ''input.txt'') else None)"
    using prep ip unfolding prepare_input_array
    by (auto split: jsval.splits option.splits if_splits)
  then show ?thesis using b cmd by blast
qed

text \<open>
  Claim C5, as amended: two requests with the same language, the same workspace path
  and the same input-file path (both with an input file or both without) get the same
  command whenever the language is not Java. A Java command names the source file and
  the run target after the class name found in the code, so two Java requests get the
  same command when, in addition, their codes give the same class name.
\<close>

theorem C5_command_determined:
  assumes "tempDir w1 = tempDir w2"
    and "language r1 = language r2"
    and "truthy (input r1) = truthy (input r2)"
    and "language_toLowerCase (language r1) = Inr ''java''
           \<longrightarrow> code_match (code r1) = code_match (code r2)"
    and "Exec k1 \<in> set (fst (run_program w1 r1))"
    and "Exec k2 \<in> set (fst (run_program w2 r2))"
  shows "k1 = k2"
proof -
  from exec_command[OF assms(5)] obtain lang1 f1 where
    b1: "before_try w1 r1 = Inr (lang1, f1)" and
    c1: "executionCommand lang1 (tempDir w1) f1 (path_join (tempDir w1) f1)
           (if truthy (input r1) then Some (path_join (tempDir w1) ''input.txt'') else None) = Some k1"
    by blast
  from exec_command[OF assms(6)] obtain lang2 f2 where
    b2: "before_try w2 r2 = Inr (lang2, f2)" and
    c2: "executionCommand lang2 (tempDir w2) f2 (path_join (tempDir w2) f2)
           (if truthy (input r2) then Some (path_join (tempDir w2) ''input.txt'') else None) = Some k2"
    by blast
  from b1 obtain e1 where l1: "language_toLowerCase (language r1) = Inr lang1"
    and x1: "fileExtensions lang1 = Some e1"
    and n1: "if lang1 = ''java''
             then \<exists>className. code_match (code r1) = Inr (Some className) \<and> f1 = className @ ''.java''
             else f1 = ''Program.'' @ extension_string e1"
    unfolding before_try_reached by blast
  from b2 obtain e2 where l2: "language_toLowerCase (language r2) = Inr lang2"
    and x2: "fileExtensions lang2 = Some e2"
    and n2: "if lang2 = ''java''
             then \<exists>className. code_match (code r2) = Inr (Some className) \<and> f2 = className @ ''.java''
             else f2 = ''Program.'' @ extension_string e2"
    unfolding before_try_reached by blast
  have lang: "lang1 = lang2" using l1 l2 assms(2) by simp
  have ext: "e1 = e2" using x1 x2 lang by simp
  have fname: "f1 = f2"
  proof (cases "lang1 = ''java''")
    case True
    then have "code_match (code r1) = code_match (code r2)" using assms(4) l1 by simp
    then show ?thesis using n1 n2 True lang by auto
  next
    case False
    then show ?thesis using n1 n2 lang ext by simp
  qed
  from c1 have "executionCommand lang2 (tempDir w2) f2 (path_join (tempDir w2) f2)
           (if truthy (input r2) then Some (path_join (tempDir w2) ''input.txt'') else None) = Some k1"
    unfolding lang fname assms(1) assms(3) by simp
  then show ?thesis using c2 by simp
qed

theorem C5_command_determined_witness:
  "''python3 /app/temp/t1/Program.py'' = ''python3 /app/temp/t1/Program.py''
   \<and> Exec ''python3 /app/temp/t1/Program.py''
        \<in> set (fst (run_program world_ok (python_request JUndefined)))
   \<and> Exec ''python3 /app/temp/t1/Program.py''
        \<in> set (fst (run_program world_timeout
                       \<lparr>code = JStr ''while True: pass'', language = JStr ''Python'', input = JNull\<rparr>))"
proof -
  have x1: "Exec ''python3 /app/temp/t1/Program.py''
        \<in> set (fst (run_program world_ok (python_request JUndefined)))"
    by code_simp
  have x2: "Exec ''python3 /app/temp/t1/Program.py''
        \<in> set (fst (run_program world_timeout
                       \<lparr>code = JStr ''while True: pass'', language = JStr ''Python'', input = JNull\<rparr>))"
    by code_simp
  have d: "tempDir world_ok = tempDir world_timeout" by (simp add: world_defs)
  have l: "language (python_request JUndefined)
           = language \<lparr>code = JStr ''while True: pass'', language = JStr ''Python'', input = JNull\<rparr>"
    by (simp add: world_defs)
  have i: "truthy (input (python_request JUndefined))
           = truthy (input \<lparr>code = JStr ''while True: pass'', language = JStr ''Python'', input = JNull\<rparr>)"
    by (simp add: world_defs)
  have "toLowerCase ''Python'' \<noteq> ''java''" by code_simp
  then have j: "language_toLowerCase (language (python_request JUndefined)) = Inr ''java''
           \<longrightarrow> code_match (code (python_request JUndefined))
               = code_match (code \<lparr>code = JStr ''while True: pass'', language = JStr ''Python'', input = JNull\<rparr>)"
    by (simp add: world_defs)
  from C5_command_determined[OF d l i j x1 x2] x1 x2 show ?thesis by blast
qed

text \<open>
  Claim C5 as stated fails: two Java requests with the same language, workspace and
  (absent) input file, whose codes declare different classes, get different commands.
\<close>

theorem C5_counterexample:
  "language (java_request ''class A {}'') = language (java_request ''class B {}'')
   \<and> input (java_request ''class A {}'') = input (java_request ''class B {}'')
   \<and> Exec ''javac /app/temp/t1/A.java && java -cp /app/temp/t1 A''
        \<in> set (fst (run_program world_ok (java_request ''class A {}'')))
   \<and> Exec ''javac /app/temp/t1/B.java && java -cp /app/temp/t1 B''
        \<in> set (fst (run_program world_ok (java_request ''class B {}'')))
   \<and> ''javac /app/temp/t1/A.java && java -cp /app/temp/t1 A''
        \<noteq> ''javac /app/temp/t1/B.java && java -cp /app/temp/t1 B''"
  by code_simp

section \<open>The Java source file (claim C7)\<close>

lemma try_catch_head:
  "\<exists>rest. try_catch w req lang fileName =
     WriteFile (path_join (tempDir w) fileName) (code req) # rest"
proof -
  have "\<exists>rest. fst (try_body w req lang fileName) =
          WriteFile (path_join (tempDir w) fileName) (code req) # rest"
    unfolding try_body_def
    by (auto simp: Let_def split: option.splits prod.splits sum.splits)
  then show ?thesis
    unfolding try_catch_def
    by (cases "try_body w req lang fileName") (auto split: option.splits)
qed

lemma first_class_match_valid: "first_class_match c ident \<Longrightarrow> valid_identifier ident"
  unfolding first_class_match_def class_match_at_def by blast

text \<open>
  Claim C7: for every Java request, the source file is named after the identifier of
  the first match of the keyword \<open>class\<close> followed by an identifier in the code, and
  a request without such a match is answered with the validation error
  \<open>Invalid Java code. Class name is missing.\<close> The handler misses a case. For the
  body \<open>{"code": 5, "language": "java"}\<close> both checks of lines 94-108 pass and the
  workspace is created; the code has no match, but \<open>code.match(...)\<close> on line 136,
  outside the \<open>try\<close> statement, throws, since a number has no such method: no
  validation error is sent, the handler's promise is rejected, and the workspace is
  left behind.
\<close>

theorem C7_non_string_code_unanswered:
  "admitted numeric_code_request
   \<and> language_toLowerCase (language numeric_code_request) = Inr ''java''
   \<and> run_program world_ok numeric_code_request
       = ([Mkdir (tempDir world_ok)], Rejected (TypeError ''code.match is not a function''))
   \<and> responses (fst (run_program world_ok numeric_code_request)) = []
   \<and> removals (tempDir world_ok) (fst (run_program world_ok numeric_code_request)) = 0"
  by code_simp

text \<open>
  When the code of a Java request is a string, the source file is named after the
  identifier of the first match of \<open>class\<close>, white space and an identifier in the
  code, with the extension \<open>.java\<close>; if the code has no such match, the request is
  answered with the validation error \<open>Invalid Java code. Class name is missing.\<close>, and
  no process is spawned. One of the two always holds. The request is one that passed
  the checks for missing fields and size, and whose workspace was created.
\<close>

theorem java_source_file:
  assumes "admitted req" and "mkdir_result w = None"
    and "language req = JStr l" and "toLowerCase l = ''java''"
    and "code req = JStr c"
  shows "(\<forall>ident. first_class_match c ident \<longrightarrow>
            valid_identifier ident
            \<and> (\<exists>rest. run_program w req =
                  (Mkdir (tempDir w)
                   # WriteFile (path_join (tempDir w) (ident @ ''.java'')) (JStr c)
                   # rest, Returned)))
       \<and> ((\<forall>i ident. \<not> class_match_at c i ident) \<longrightarrow>
            run_program w req =
              ([Mkdir (tempDir w), Rm (tempDir w),
                Respond 400 \<lparr>responseCode = 400,
                              output' = ''Invalid Java code. Class name is missing.'',
                              errorMessage = ''''\<rparr>], Returned)
            \<and> \<not> spawned (fst (run_program w req)))
       \<and> ((\<exists>ident. first_class_match c ident) \<or> (\<forall>i ident. \<not> class_match_at c i ident))"
proof (intro conjI allI impI)
  fix ident assume m: "first_class_match c ident"
  then show "valid_identifier ident" by (rule first_class_match_valid)
  from m have "classNameMatch c = Some ident" by (simp add: classNameMatch_first)
  then have "before_try w req = Inr (''java'', ident @ ''.java'')"
    unfolding before_try_reached using assms by (simp add: fileExtensions_def)
  then have "run_program w req =
      (Mkdir (tempDir w) # try_catch w req ''java'' (ident @ ''.java''), Returned)"
    by (rule run_program_reached)
  then show "\<exists>rest. run_program w req =
                  (Mkdir (tempDir w)
                   # WriteFile (path_join (tempDir w) (ident @ ''.java'')) (JStr c)
                   # rest, Returned)"
    using try_catch_head[of w req "''java''" "ident @ ''.java''"] assms(5) by auto
next
  assume n: "\<forall>i ident. \<not> class_match_at c i ident"
  then have "classNameMatch c = None" using classNameMatch_none by blast
  then show r: "run_program w req =
              ([Mkdir (tempDir w), Rm (tempDir w),
                Respond 400 \<lparr>responseCode = 400,
                              output' = ''Invalid Java code. Class name is missing.'',
                              errorMessage = ''''\<rparr>], Returned)"
    using assms unfolding run_program_def before_try_def admitted_def cleanup_def
    by (auto simp: Let_def fileExtensions_def)
  show "\<not> spawned (fst (run_program w req))"
    unfolding r spawned_def by simp
next
  show "(\<exists>ident. first_class_match c ident) \<or> (\<forall>i ident. \<not> class_match_at c i ident)"
  proof (cases "classNameMatch c")
    case None
    then show ?thesis using classNameMatch_none by blast
  next
    case (Some g)
    then show ?thesis using classNameMatch_first by blast
  qed
qed

theorem java_source_file_witness:
  "first_class_match ''public class Hello { }'' ''Hello''
   \<and> valid_identifier ''Hello''
   \<and> (\<exists>rest. run_program world_ok (java_request ''public class Hello { }'') =
         (Mkdir (tempDir world_ok)
          # WriteFile (path_join (tempDir world_ok) (''Hello'' @ ''.java''))
              (JStr ''public class Hello { }'')
          # rest, Returned))"
proof -
  have a: "admitted (java_request ''public class Hello { }'')"
    by (simp add: admitted_def java_request_def)
  have d: "mkdir_result world_ok = None" by (simp add: world_ok_def)
  have l: "language (java_request ''public class Hello { }'') = JStr ''java''"
    by (simp add: java_request_def)
  have j: "toLowerCase ''java'' = ''java''" by code_simp
  have c: "code (java_request ''public class Hello { }'') = JStr ''public class Hello { }''"
    by (simp add: java_request_def)
  have "classNameMatch ''public class Hello { }'' = Some ''Hello''" by code_simp
  then have m: "first_class_match ''public class Hello { }'' ''Hello''"
    using classNameMatch_first by blast
  from java_source_file[OF a d l j c] m show ?thesis by blast
qed

section \<open>Further properties of the handler\<close>

lemma basename_java: "basename (ident @ ''.java'') ''.java'' = ident"
  unfolding basename_def by simp

text \<open>
  When the command ends without an error, the response has HTTP status 200,
  \<open>responseCode\<close> 201, the trimmed standard output as output and an empty message.
\<close>

theorem success_response:
  assumes "Exec command \<in> set (fst (run_program w req))"
    and "exec_result w command = ExecCallback None stdout stderr"
  shows "responses (fst (run_program w req)) =
           [(200, \<lparr>responseCode = 201, output' = trim stdout, errorMessage = ''''\<rparr>)]"
  unfolding responses_after_callback[OF assms(1,2)]
  by (simp add: exec_callback_def cleanup_def)

theorem success_response_witness:
  "responses (fst (run_program world_ok (python_request JUndefined))) =
     [(200, \<lparr>responseCode = 201, output' = trim ''ok'', errorMessage = ''''\<rparr>)]"
proof -
  have x: "Exec ''python3 /app/temp/t1/Program.py''
             \<in> set (fst (run_program world_ok (python_request JUndefined)))"
    by code_simp
  have r: "exec_result world_ok ''python3 /app/temp/t1/Program.py'' = ExecCallback None ''ok'' []"
    by (simp add: world_defs)
  show ?thesis by (rule success_response[OF x r])
qed

text \<open>
  The command of a Java request compiles the file named after the class and runs that
  class, with the workspace as class path.
\<close>

theorem java_command:
  assumes "before_try w req = Inr (''java'', fileName)"
    and "Exec command \<in> set (fst (run_program w req))"
  shows "\<exists>className. code_match (code req) = Inr (Some className)
           \<and> command = ''javac '' @ path_join (tempDir w) (className @ ''.java'')
                 @ '' && java -cp '' @ tempDir w @ '' '' @ className
                 @ (if truthy (input req) then '' < '' @ path_join (tempDir w) ''input.txt''
                    else [])"
proof -
  from exec_command[OF assms(2)] assms(1)
  have c: "executionCommand ''java'' (tempDir w) fileName (path_join (tempDir w) fileName)
             (if truthy (input req) then Some (path_join (tempDir w) ''input.txt'') else None)
           = Some command"
    by simp
  from assms(1) obtain className where m: "code_match (code req) = Inr (Some className)"
    and f: "fileName = className @ ''.java''"
    unfolding before_try_reached by auto
  show ?thesis using c m unfolding f executionCommand_def
    by (auto simp: Let_def basename_java)
qed

theorem java_command_witness:
  "\<exists>className. code_match (code (java_request ''class Hello { }'')) = Inr (Some className)
     \<and> ''javac /app/temp/t1/Hello.java && java -cp /app/temp/t1 Hello''
         = ''javac '' @ path_join (tempDir world_ok) (className @ ''.java'')
           @ '' && java -cp '' @ tempDir world_ok @ '' '' @ className
           @ (if truthy (input (java_request ''class Hello { }''))
              then '' < '' @ path_join (tempDir world_ok) ''input.txt'' else [])"
proof -
  have b: "before_try world_ok (java_request ''class Hello { }'') = Inr (''java'', ''Hello.java'')"
    by code_simp
  have x: "Exec ''javac /app/temp/t1/Hello.java && java -cp /app/temp/t1 Hello''
             \<in> set (fst (run_program world_ok (java_request ''class Hello { }'')))"
    by code_simp
  show ?thesis by (rule java_command[OF b x])
qed

end
